theory Spec2Isabelle
  imports Complex_Main "HOL-Library.Sublist"
begin

section \<open>JavaScript strings and arrays\<close>

text \<open>
  A JavaScript string is a sequence of 16-bit code units. The model has the strings
  whose code units are below 256, one character of a \<open>string\<close> for each code unit
  (ASCII and Latin-1). On these, \<open>toLowerCase\<close> maps \<open>A\<close>..\<open>Z\<close> and the capital letters
  U+00C0..U+00DE (without the multiplication sign U+00D7) to their small letters, 32
  code units further, and leaves every other code unit alone; \<open>trim\<close> strips the white
  space and line terminators at both ends: tab, line feed, vertical tab, form feed,
  carriage return, space and no-break space (U+00A0). Code units from 256 on, among them
  U+FEFF and the other Unicode white space and cased letters, are outside the model.
\<close>

definition toLowerChar :: "char \<Rightarrow> char" where
  "toLowerChar c =
     (let n = (of_char c :: nat)
      in if (65 \<le> n \<and> n \<le> 90) \<or> (192 \<le> n \<and> n \<le> 222 \<and> n \<noteq> 215)
         then char_of (n + 32) else c)"

definition toLowerCase :: "string \<Rightarrow> string" where
  "toLowerCase s = map toLowerChar s"

definition isWhiteSpace :: "char \<Rightarrow> bool" where
  "isWhiteSpace c = ((of_char c :: nat) \<in> {9, 10, 11, 12, 13, 32, 160})"

definition trim :: "string \<Rightarrow> string" where
  "trim s = rev (dropWhile isWhiteSpace (rev (dropWhile isWhiteSpace s)))"

text \<open>\<open>s.includes(sub)\<close>: \<open>sub\<close> occurs in \<open>s\<close> at some position.\<close>

fun js_includes :: "'a list \<Rightarrow> 'a list \<Rightarrow> bool" where
  "js_includes [] sub = (sub = [])"
| "js_includes (x # xs) sub = (prefix sub (x # xs) \<or> js_includes xs sub)"

text \<open>
  \<open>s.replace(' ', '')\<close> with a string pattern replaces the first occurrence only:
  the first space is removed, later ones stay.
\<close>

definition replace_first_space :: "string \<Rightarrow> string" where
  "replace_first_space s = remove1 (CHR '' '') s"

text \<open>
  \<open>s.split(' ')\<close>: the pieces between single spaces; the result is never empty
  (\<open>''.split(' ')\<close> is \<open>['']\<close>) and two adjacent spaces give an empty piece.
\<close>

fun split_on :: "'a \<Rightarrow> 'a list \<Rightarrow> 'a list list" where
  "split_on d [] = [[]]"
| "split_on d (x # xs) =
     (if x = d then [] # split_on d xs
      else (case split_on d xs of w # ws \<Rightarrow> (x # w) # ws | [] \<Rightarrow> [[x]]))"

text \<open>
  A JavaScript array is a list of optional values: \<open>None\<close> is \<open>undefined\<close> (a hole, or
  an index past the end). Reading never fails; writing past the end extends the array
  and leaves holes in between.
\<close>

definition js_get :: "'a option list \<Rightarrow> nat \<Rightarrow> 'a option" where
  "js_get arr i = (if i < length arr then arr ! i else None)"

definition js_set :: "'a option list \<Rightarrow> nat \<Rightarrow> 'a \<Rightarrow> 'a option list" where
  "js_set arr i v =
     (if i < length arr then arr[i := Some v]
      else arr @ replicate (i - length arr) None @ [Some v])"

text \<open>\<open>s[i]\<close> on a string: the character, or \<open>undefined\<close> past the end.\<close>

definition char_at :: "'a list \<Rightarrow> nat \<Rightarrow> 'a option" where
  "char_at s i = (if i < length s then Some (s ! i) else None)"

text \<open>
  A \<open>for\<close> loop over the indices \<open>is\<close> whose body may fail (a \<open>TypeError\<close>, or a value
  that is \<open>undefined\<close> or \<open>NaN\<close>): the first failure ends the run with \<open>None\<close>.
\<close>

fun for_each :: "nat list \<Rightarrow> (nat \<Rightarrow> 's \<Rightarrow> 's option) \<Rightarrow> 's \<Rightarrow> 's option" where
  "for_each [] body s = Some s"
| "for_each (i # is) body s =
     (case body i s of None \<Rightarrow> None | Some s' \<Rightarrow> for_each is body s')"

section \<open>levenshteinDistance (useVoiceActivation)\<close>

text \<open>
  The matrix is an array of rows, each row an array of numbers.
  \<open>matrix[i] = [i]\<close> stores a fresh one-element row; \<open>matrix[i][j] = v\<close> reads the row
  object \<open>matrix[i]\<close> (a \<open>TypeError\<close> when it is \<open>undefined\<close>) and writes into it.
\<close>

type_synonym matrix = "nat option list option list"

definition set_row :: "nat \<Rightarrow> matrix \<Rightarrow> matrix option" where
  "set_row i m = Some (js_set m i [Some i])"

definition set_cell :: "nat \<Rightarrow> nat \<Rightarrow> nat \<Rightarrow> matrix \<Rightarrow> matrix option" where
  "set_cell i j v m =
     (case js_get m i of None \<Rightarrow> None
      | Some row \<Rightarrow> Some (js_set m i (js_set row j v)))"

definition get_cell :: "matrix \<Rightarrow> nat \<Rightarrow> nat \<Rightarrow> nat option" where
  "get_cell m i j = (case js_get m i of None \<Rightarrow> None | Some row \<Rightarrow> js_get row j)"

text \<open>
  The body of the inner loop. A cell that is \<open>undefined\<close> would make the sum \<open>NaN\<close>;
  the model stops with \<open>None\<close> there.
\<close>

definition fill_cell :: "'a list \<Rightarrow> 'a list \<Rightarrow> nat \<Rightarrow> nat \<Rightarrow> matrix \<Rightarrow> matrix option" where
  "fill_cell a b i j m =
     (let cost = (if char_at a (j - 1) = char_at b (i - 1) then 0 else 1 :: nat) in
      case get_cell m (i - 1) j of None \<Rightarrow> None
      | Some del \<Rightarrow>
     (case get_cell m i (j - 1) of None \<Rightarrow> None
      | Some ins \<Rightarrow>
     (case get_cell m (i - 1) (j - 1) of None \<Rightarrow> None
      | Some sub \<Rightarrow> set_cell i j (min (min (del + 1) (ins + 1)) (sub + cost)) m)))"

definition fill_row :: "'a list \<Rightarrow> 'a list \<Rightarrow> nat \<Rightarrow> matrix \<Rightarrow> matrix option" where
  "fill_row a b i m = for_each [1..<Suc (length a)] (fill_cell a b i) m"

definition levenshteinDistance :: "'a list \<Rightarrow> 'a list \<Rightarrow> nat option" where
  "levenshteinDistance a b =
     (if length a = 0 then Some (length b)
      else if length b = 0 then Some (length a)
      else
        case for_each [0..<Suc (length b)] set_row [] of None \<Rightarrow> None
        | Some m1 \<Rightarrow>
       (case for_each [0..<Suc (length a)] (\<lambda>j. set_cell 0 j j) m1 of None \<Rightarrow> None
        | Some m2 \<Rightarrow>
       (case for_each [1..<Suc (length b)] (fill_row a b) m2 of None \<Rightarrow> None
        | Some m3 \<Rightarrow> get_cell m3 (length b) (length a))))"

section \<open>Edit distance\<close>

text \<open>
  The classic unit-cost edit distance, by recursion on the two strings: to turn
  \<open>x # xs\<close> into \<open>y # ys\<close>, delete \<open>x\<close>, insert \<open>y\<close>, or put \<open>y\<close> in the place of \<open>x\<close> (free
  when they are equal).
\<close>

fun edit_distance :: "'a list \<Rightarrow> 'a list \<Rightarrow> nat" where
  "edit_distance [] ys = length ys"
| "edit_distance xs [] = length xs"
| "edit_distance (x # xs) (y # ys) =
     min (min (edit_distance xs (y # ys) + 1) (edit_distance (x # xs) ys + 1))
         (edit_distance xs ys + (if x = y then 0 else 1))"

text \<open>
  An edit script of cost \<open>n\<close> from \<open>xs\<close> to \<open>ys\<close>: characters are kept for free, and each
  deletion, insertion and substitution costs one.
\<close>

inductive edits :: "nat \<Rightarrow> 'a list \<Rightarrow> 'a list \<Rightarrow> bool" where
  edits_Nil: "edits 0 [] []"
| edits_keep: "edits n xs ys \<Longrightarrow> edits n (x # xs) (x # ys)"
| edits_subst: "edits n xs ys \<Longrightarrow> edits (Suc n) (x # xs) (y # ys)"
| edits_delete: "edits n xs ys \<Longrightarrow> edits (Suc n) (x # xs) ys"
| edits_insert: "edits n xs ys \<Longrightarrow> edits (Suc n) xs (y # ys)"

text \<open>
  Bookkeeping for the proof that the matrix holds edit distances of prefixes:
  \<open>dist_upto a b i j\<close> is the value the cell \<open>matrix[i][j]\<close> must hold, \<open>table a b w\<close> is
  the matrix whose row \<open>i\<close> holds its first \<open>w i\<close> cells, and \<open>filled a b i\<close> is the matrix
  after the outer loop has completed the rows up to \<open>i\<close>.
\<close>

definition dist_upto :: "'a list \<Rightarrow> 'a list \<Rightarrow> nat \<Rightarrow> nat \<Rightarrow> nat" where
  "dist_upto a b i j = edit_distance (take j a) (take i b)"

definition table :: "'a list \<Rightarrow> 'a list \<Rightarrow> (nat \<Rightarrow> nat) \<Rightarrow> matrix" where
  "table a b w =
     map (\<lambda>i. Some (map (\<lambda>j. Some (dist_upto a b i j)) [0..<w i])) [0..<Suc (length b)]"

definition filled :: "'a list \<Rightarrow> 'a list \<Rightarrow> nat \<Rightarrow> matrix" where
  "filled a b i = table a b (\<lambda>r. if r \<le> i then Suc (length a) else 1)"

section \<open>The fuzzy trigger matcher (recognition.onresult)\<close>

text \<open>
  The condition of the \<open>if\<close> in \<open>recognition.onresult\<close>, on the current transcript and the
  trigger phrase. In JavaScript \<open>&&\<close> binds tighter than \<open>||\<close>, so the predicate given to
  \<open>some\<close> is \<open>(distance(word, 'help') <= 1 && includes('aura')) || includes('aurora')\<close>.
  A comparison with a distance that is not a number is false.
\<close>

definition is_at_most :: "nat option \<Rightarrow> nat \<Rightarrow> bool" where
  "is_at_most d k = (case d of None \<Rightarrow> False | Some n \<Rightarrow> n \<le> k)"

definition matchesTrigger :: "string \<Rightarrow> string \<Rightarrow> bool" where
  "matchesTrigger currentTranscript triggerPhrase =
     (let normalizedTranscript = trim (toLowerCase currentTranscript);
          normalizedTrigger = trim (toLowerCase triggerPhrase)
      in js_includes normalizedTranscript normalizedTrigger
       \<or> js_includes normalizedTranscript (replace_first_space normalizedTrigger)
       \<or> is_at_most (levenshteinDistance normalizedTranscript normalizedTrigger) 2
       \<or> list_ex (\<lambda>word.
             (is_at_most (levenshteinDistance word ''help'') 1
                \<and> js_includes normalizedTranscript ''aura'')
             \<or> js_includes normalizedTranscript ''aurora'')
           (split_on (CHR '' '') normalizedTranscript))"

text \<open>
  The four conditions as the specification words them, on the normalized strings:
  the fourth is (a word at distance at most 1 from "help") and (contains "aura" or contains
  "aurora").
\<close>

definition spec_matches :: "string \<Rightarrow> string \<Rightarrow> bool" where
  "spec_matches transcript triggerPhrase =
     (let t = trim (toLowerCase transcript); p = trim (toLowerCase triggerPhrase)
      in sublist p t
       \<or> sublist (filter (\<lambda>c. \<not> isWhiteSpace c) p) t
       \<or> edit_distance t p \<le> 2
       \<or> (list_ex (\<lambda>word. edit_distance word ''help'' \<le> 1) (split_on (CHR '' '') t)
            \<and> (sublist ''aura'' t \<or> sublist ''aurora'' t)))"

section \<open>ApiService\<close>

subsection \<open>Types (types/index.ts)\<close>

record Location =
  latitude :: real
  longitude :: real

record EmergencyContact =
  contact_id :: string
  contact_name :: string
  phoneNumber :: string

record UserProfile =
  profile_id :: string
  profile_name :: string
  emergencyContacts :: "EmergencyContact list"
  voiceActivationEnabled :: bool
  voiceActivationLanguage :: string

datatype AuraState = IDLE | ACTIVE | ALERT | SOS_ACTIVE | EMERGENCY_VOICE

text \<open>
  \<open>ApiResponse\<close> has an optional message and an optional \<open>data\<close> payload of any shape; the
  payloads this program builds carry \<open>contactsNotified\<close>, a time stamp and, from the
  service, the location.
\<close>

record AlertData =
  contactsNotified :: int
  alert_location :: "Location option"
  timestamp :: string

record ApiResponse =
  success :: bool
  message :: "string option"
  data :: "AlertData option"

record AudioProcessingResult =
  transcription :: string
  threat_detected :: bool
  ai_response :: string

text \<open>A thrown JavaScript error, with its message.\<close>

datatype error = Error string

subsection \<open>Configuration and collaborators\<close>

text \<open>
  The build-time environment: a variable may be absent. \<open>X || 'placeholder'\<close> takes the
  placeholder for an absent or empty variable.
\<close>

record env =
  VITE_SUPABASE_URL :: "string option"
  VITE_SUPABASE_ANON_KEY :: "string option"

definition or_default :: "string option \<Rightarrow> string \<Rightarrow> string" where
  "or_default v d = (case v of None \<Rightarrow> d | Some s \<Rightarrow> if s = [] then d else s)"

definition SUPABASE_URL :: "env \<Rightarrow> string" where
  "SUPABASE_URL e = or_default (VITE_SUPABASE_URL e) ''your-supabase-url''"

definition SUPABASE_ANON_KEY :: "env \<Rightarrow> string" where
  "SUPABASE_ANON_KEY e = or_default (VITE_SUPABASE_ANON_KEY e) ''your-supabase-anon-key''"

definition not_configured :: "env \<Rightarrow> bool" where
  "not_configured e =
     (SUPABASE_URL e = [] \<or> SUPABASE_URL e = ''your-supabase-url''
      \<or> SUPABASE_ANON_KEY e = [] \<or> SUPABASE_ANON_KEY e = ''your-supabase-anon-key'')"

text \<open>
  What a call of \<open>fetch\<close> followed by \<open>response.json()\<close> does: \<open>fetch\<close> throws, the
  response is not \<open>ok\<close> (with its status text), the body does not parse, or it parses
  to a value. The value is taken at the type the function declares for it; an answer of
  the language model without the \<open>choices\<close> array throws in the same \<open>try\<close> and counts as
  a body that does not parse.
\<close>

datatype 'r fetched = FetchThrows error | NotOk string | BadJson error | Json 'r

type_synonym Blob = "nat list"

text \<open>
  The providers behind the service, as functions of the request: the transcription and
  language-model services, speech synthesis, and the alert functions of the backend,
  called with the endpoint, the user id and the location.
\<close>

record providers =
  transcriber :: "Blob \<Rightarrow> string option fetched"
  llm :: "string \<Rightarrow> string \<Rightarrow> string option fetched"
  tts :: "string \<Rightarrow> Blob fetched"
  notifier :: "string \<Rightarrow> string \<Rightarrow> Location \<Rightarrow> ApiResponse fetched"

subsection \<open>transcribeAudio, getAIResponse, generateSpeech\<close>

definition fallback_transcript :: string where
  "fallback_transcript = ''Someone is talking to me and I'm not sure about their intentions.''"

definition transcribe_try :: "providers \<Rightarrow> Blob \<Rightarrow> error + string" where
  "transcribe_try p audioBlob =
     (case transcriber p audioBlob of
        FetchThrows e \<Rightarrow> Inl e
      | NotOk statusText \<Rightarrow> Inl (Error (''Transcription failed: '' @ statusText))
      | BadJson e \<Rightarrow> Inl e
      | Json text \<Rightarrow> Inr (or_default text []))"

definition transcribeAudio :: "providers \<Rightarrow> Blob \<Rightarrow> string" where
  "transcribeAudio p audioBlob =
     (case transcribe_try p audioBlob of Inl _ \<Rightarrow> fallback_transcript | Inr text \<Rightarrow> text)"

definition systemPrompt :: "bool \<Rightarrow> string" where
  "systemPrompt isAssertiveMode =
     (if isAssertiveMode
      then ''You are Aura, a personal safety AI. The situation has escalated. Change your tone to be loud, assertive, and official. Announce that this is a monitored safety call, that audio is being recorded, and that the user's location has been shared with authorities. Address the potential aggressor directly. Keep responses under 50 words and be direct.''
      else ''You are Aura, a personal safety AI. You are on a simulated phone call with me. Your tone is calm, clear, and reassuring. Respond as if you are a friend or family member on the phone, asking clarifying questions like 'What's going on?' or 'Describe them to me'. Keep responses under 30 words.'')"

definition ai_try :: "providers \<Rightarrow> string \<Rightarrow> bool \<Rightarrow> error + string" where
  "ai_try p transcribedText isAssertiveMode =
     (case llm p (systemPrompt isAssertiveMode) transcribedText of
        FetchThrows e \<Rightarrow> Inl e
      | NotOk statusText \<Rightarrow> Inl (Error (''AI response failed: '' @ statusText))
      | BadJson e \<Rightarrow> Inl e
      | Json content \<Rightarrow>
          Inr (or_default content
                 ''I understand. Can you tell me more about what's happening?''))"

definition getAIResponse :: "providers \<Rightarrow> string \<Rightarrow> bool \<Rightarrow> string" where
  "getAIResponse p transcribedText isAssertiveMode =
     (case ai_try p transcribedText isAssertiveMode of
        Inr text \<Rightarrow> text
      | Inl _ \<Rightarrow>
          (if isAssertiveMode
           then ''This call is being monitored and recorded. The user's location has been shared with emergency services. Please step away immediately.''
           else ''Hey, what's going on? Are you okay? Can you describe what's happening?''))"

definition generateSpeech :: "providers \<Rightarrow> string \<Rightarrow> Blob" where
  "generateSpeech p responseText =
     (case tts p responseText of
        FetchThrows _ \<Rightarrow> []
      | NotOk _ \<Rightarrow> []
      | BadJson _ \<Rightarrow> []
      | Json blob \<Rightarrow> blob)"

subsection \<open>triggerSmsAlert, triggerSOSAlert\<close>

definition baseUrl :: "env \<Rightarrow> string" where
  "baseUrl e = SUPABASE_URL e @ ''/functions/v1''"

definition sms_try :: "env \<Rightarrow> providers \<Rightarrow> string \<Rightarrow> Location \<Rightarrow> error + ApiResponse" where
  "sms_try e p userId loc =
     (if not_configured e
      then Inr \<lparr>success = True,
                message = Some ''Emergency alert sent successfully (mock response - Supabase not configured)'',
                data = None\<rparr>
      else case notifier p (baseUrl e @ ''/send-aura-alert'') userId loc of
             FetchThrows err \<Rightarrow> Inl err
           | NotOk statusText \<Rightarrow> Inl (Error (''Alert failed: '' @ statusText))
           | BadJson err \<Rightarrow> Inl err
           | Json r \<Rightarrow> Inr r)"

definition triggerSmsAlert :: "env \<Rightarrow> providers \<Rightarrow> string \<Rightarrow> Location \<Rightarrow> error + ApiResponse" where
  "triggerSmsAlert e p userId loc =
     (case sms_try e p userId loc of
        Inr r \<Rightarrow> Inr r
      | Inl _ \<Rightarrow>
          Inr \<lparr>success = True,
               message = Some ''Emergency alert sent successfully (mock response)'',
               data = None\<rparr>)"

text \<open>\<open>now\<close> is the value of \<open>new Date().toISOString()\<close> at the call.\<close>

definition sos_try ::
  "env \<Rightarrow> providers \<Rightarrow> string \<Rightarrow> string \<Rightarrow> Location \<Rightarrow> error + ApiResponse" where
  "sos_try e p now userId loc =
     (if not_configured e
      then Inr \<lparr>success = True,
                message = Some ''Critical SOS alert sent successfully (mock response - Supabase not configured)'',
                data = Some \<lparr>contactsNotified = 3, alert_location = Some loc, timestamp = now\<rparr>\<rparr>
      else case notifier p (baseUrl e @ ''/send-sos-alert'') userId loc of
             FetchThrows err \<Rightarrow> Inl err
           | NotOk statusText \<Rightarrow> Inl (Error (''SOS Alert failed: '' @ statusText))
           | BadJson err \<Rightarrow> Inl err
           | Json r \<Rightarrow> Inr r)"

definition triggerSOSAlert ::
  "env \<Rightarrow> providers \<Rightarrow> string \<Rightarrow> string \<Rightarrow> Location \<Rightarrow> error + ApiResponse" where
  "triggerSOSAlert e p now userId loc =
     (case sos_try e p now userId loc of
        Inr r \<Rightarrow> Inr r
      | Inl _ \<Rightarrow>
          Inr \<lparr>success = True,
               message = Some ''Critical SOS alert sent successfully (mock response)'',
               data = Some \<lparr>contactsNotified = 3, alert_location = Some loc, timestamp = now\<rparr>\<rparr>)"

subsection \<open>detectThreat, processAudioWorkflow, playAudioResponse\<close>

definition threatKeywords :: "string list" where
  "threatKeywords =
     [''help me'', ''help'', ''go away'', ''leave me alone'', ''stop'', ''no'',
      ''scared'', ''afraid'', ''uncomfortable'', ''threatening'', ''following'',
      ''emergency'', ''call police'', ''danger'', ''unsafe'']"

definition detectThreat :: "string \<Rightarrow> bool" where
  "detectThreat transcribedText =
     (let lowerText = toLowerCase transcribedText
      in list_ex (\<lambda>keyword. js_includes lowerText keyword) threatKeywords)"

text \<open>
  The three steps run in a \<open>try\<close> whose handler throws the error again; none of the steps
  can throw, each having its own handler.
\<close>

definition processAudioWorkflow :: "providers \<Rightarrow> Blob \<Rightarrow> error + AudioProcessingResult" where
  "processAudioWorkflow p audioBlob =
     (let transcription = transcribeAudio p audioBlob;
          threatDetected = detectThreat transcription;
          aiResponse = getAIResponse p transcription threatDetected
      in Inr \<lparr>transcription = transcription,
               threat_detected = threatDetected,
               ai_response = aiResponse\<rparr>)"

text \<open>
  \<open>playAudioResponse\<close> awaits a promise that the audio element's \<open>ended\<close> event resolves
  and its \<open>error\<close> event rejects; the promise of \<open>audio.play()\<close> itself is dropped. So
  playing a generated blob has three outcomes: the audio ends, the element reports an
  error, or neither event ever fires (the browser refuses to play, or the audio is
  paused) and the promise never settles.
\<close>

datatype playback = Played | PlaybackError error | NeverSettles

text \<open>
  How an asynchronous block ends: it completes, it throws, or it stays waiting for a
  promise that never settles, and nothing after the \<open>await\<close> runs.
\<close>

datatype completion = Completed | Threw error | Pending

text \<open>
  An empty blob goes to the browser's own speech synthesis, which is not awaited. The
  handler of the \<open>try\<close> throws the error again.
\<close>

definition playAudioResponse ::
  "providers \<Rightarrow> (Blob \<Rightarrow> playback) \<Rightarrow> string \<Rightarrow> completion" where
  "playAudioResponse p audio responseText =
     (let audioBlob = generateSpeech p responseText
      in if length audioBlob > 0
         then (case audio audioBlob of
                 Played \<Rightarrow> Completed
               | PlaybackError e \<Rightarrow> Threw e
               | NeverSettles \<Rightarrow> Pending)
         else Completed)"

section \<open>useAuraState\<close>

record aura_hook =
  aura_state :: AuraState
  aura_isListening :: bool
  aura_transcription :: string
  aura_aiResponse :: string
  sosAlertResult :: "ApiResponse option"

definition initial_aura :: aura_hook where
  "initial_aura =
     \<lparr>aura_state = IDLE, aura_isListening = False, aura_transcription = [],
      aura_aiResponse = [], sosAlertResult = None\<rparr>"

definition activateAura :: "aura_hook \<Rightarrow> aura_hook" where
  "activateAura h = h\<lparr>aura_state := ACTIVE, aura_isListening := True\<rparr>"

definition deactivateAura :: "aura_hook \<Rightarrow> aura_hook" where
  "deactivateAura h =
     h\<lparr>aura_state := IDLE, aura_isListening := False, aura_transcription := [],
       aura_aiResponse := []\<rparr>"

definition triggerAlert :: "aura_hook \<Rightarrow> aura_hook" where
  "triggerAlert h = h\<lparr>aura_state := ALERT\<rparr>"

definition triggerSOS :: "aura_hook \<Rightarrow> aura_hook" where
  "triggerSOS h = h\<lparr>aura_state := SOS_ACTIVE\<rparr>"

definition triggerEmergencyVoice :: "aura_hook \<Rightarrow> aura_hook" where
  "triggerEmergencyVoice h = h\<lparr>aura_state := EMERGENCY_VOICE\<rparr>"

definition resetToIdle :: "aura_hook \<Rightarrow> aura_hook" where
  "resetToIdle h =
     h\<lparr>aura_state := IDLE, aura_isListening := False, aura_transcription := [],
       aura_aiResponse := [], sosAlertResult := None\<rparr>"

definition updateTranscription :: "string \<Rightarrow> aura_hook \<Rightarrow> aura_hook" where
  "updateTranscription text h = h\<lparr>aura_transcription := text\<rparr>"

definition updateAiResponse :: "string \<Rightarrow> aura_hook \<Rightarrow> aura_hook" where
  "updateAiResponse response h = h\<lparr>aura_aiResponse := response\<rparr>"

definition updateSOSResult :: "ApiResponse option \<Rightarrow> aura_hook \<Rightarrow> aura_hook" where
  "updateSOSResult result h = h\<lparr>sosAlertResult := result\<rparr>"

text \<open>The six operations that set the safety state, by the names the specification gives them.\<close>

datatype aura_op =
  OpActivate | OpDeactivate | OpThreatDetected | OpSosTrigger | OpEmergencyVoiceTrigger
  | OpResetToIdle

fun apply_op :: "aura_op \<Rightarrow> aura_hook \<Rightarrow> aura_hook" where
  "apply_op OpActivate = activateAura"
| "apply_op OpDeactivate = deactivateAura"
| "apply_op OpThreatDetected = triggerAlert"
| "apply_op OpSosTrigger = triggerSOS"
| "apply_op OpEmergencyVoiceTrigger = triggerEmergencyVoice"
| "apply_op OpResetToIdle = resetToIdle"

fun target :: "aura_op \<Rightarrow> AuraState" where
  "target OpActivate = ACTIVE"
| "target OpDeactivate = IDLE"
| "target OpThreatDetected = ALERT"
| "target OpSosTrigger = SOS_ACTIVE"
| "target OpEmergencyVoiceTrigger = EMERGENCY_VOICE"
| "target OpResetToIdle = IDLE"

text \<open>The transition table of the specification, one equation per row.\<close>

fun spec_edge :: "aura_op \<Rightarrow> AuraState \<Rightarrow> AuraState \<Rightarrow> bool" where
  "spec_edge OpActivate from to = (from = IDLE \<and> to = ACTIVE)"
| "spec_edge OpDeactivate from to = (from = ACTIVE \<and> to = IDLE)"
| "spec_edge OpThreatDetected from to = (from = ACTIVE \<and> to = ALERT)"
| "spec_edge OpSosTrigger from to = (from \<in> {IDLE, ACTIVE, ALERT} \<and> to = SOS_ACTIVE)"
| "spec_edge OpEmergencyVoiceTrigger from to = (from = IDLE \<and> to = EMERGENCY_VOICE)"
| "spec_edge OpResetToIdle from to = (to = IDLE)"

section \<open>useLocation\<close>

text \<open>
  What the browser's geolocation does for one request: the capability is absent, a
  position arrives, or the error callback runs with a code (1 permission denied,
  2 position unavailable, 3 timeout).
\<close>

datatype geo = NoGeolocation | Position Location | PositionError nat

definition getCurrentLocation :: "geo \<Rightarrow> error + Location" where
  "getCurrentLocation g =
     (case g of
        NoGeolocation \<Rightarrow> Inl (Error ''Geolocation is not supported by this browser'')
      | Position coords \<Rightarrow> Inr coords
      | PositionError code \<Rightarrow>
          Inl (Error (if code = 1 then ''Location access denied by user''
                      else if code = 2 then ''Location information unavailable''
                      else if code = 3 then ''Location request timed out''
                      else ''Unable to retrieve location'')))"

section \<open>App\<close>

datatype view = Permissions | Home | SettingsView | SosConfirmation | FakeCall

text \<open>A call of one of the two alert functions of the service, with its arguments.\<close>

datatype alert_call = SmsAlertCall string Location | SOSAlertCall string Location

record app =
  aura :: aura_hook
  currentView :: view
  isProcessing :: bool
  sosProcessing :: bool
  emergencyVoiceActive :: bool
  userProfile :: UserProfile
  audioBlob :: "Blob option"
  alert_calls :: "alert_call list"

text \<open>What the handlers meet outside the application while they run.\<close>

record world =
  w_env :: env
  w_providers :: providers
  w_now :: string
  w_geo :: geo
  w_audio :: "Blob \<Rightarrow> playback"

text \<open>The handler of the \<open>catch\<close> in \<open>handleSOSActivate\<close>.\<close>

definition sos_failed :: "world \<Rightarrow> app \<Rightarrow> app" where
  "sos_failed w a =
     a\<lparr>aura := updateSOSResult
                 (Some \<lparr>success = False,
                        message = Some ''Error sending alert, but emergency contacts may have been notified'',
                        data = Some \<lparr>contactsNotified = 0, alert_location = None,
                                       timestamp = w_now w\<rparr>\<rparr>)
                 (aura a),
       currentView := SosConfirmation\<rparr>"

definition handleSOSActivate :: "world \<Rightarrow> app \<Rightarrow> app" where
  "handleSOSActivate w a =
     (let a1 = a\<lparr>sosProcessing := True\<rparr>;
          a2 = a1\<lparr>aura := triggerSOS (aura a1)\<rparr>;
          a3 = (case getCurrentLocation (w_geo w) of
                  Inl _ \<Rightarrow> sos_failed w a2
                | Inr currentLocation \<Rightarrow>
                    (let a' = a2\<lparr>alert_calls := alert_calls a2 @
                                  [SOSAlertCall (profile_id (userProfile a2)) currentLocation]\<rparr>
                     in case triggerSOSAlert (w_env w) (w_providers w) (w_now w)
                               (profile_id (userProfile a2)) currentLocation of
                          Inl _ \<Rightarrow> sos_failed w a'
                        | Inr result \<Rightarrow>
                            a'\<lparr>aura := updateSOSResult (Some result) (aura a'),
                               currentView := SosConfirmation\<rparr>))
      in a3\<lparr>sosProcessing := False\<rparr>)"

text \<open>
  A block of a handler that may throw returns the state it reached together with the
  error, if it threw: the state updates made before the error stay.

  \<open>send_sms\<close> is one call of \<open>apiService.triggerSmsAlert\<close> from a handler; the call is
  recorded.
\<close>

definition send_sms :: "world \<Rightarrow> Location \<Rightarrow> app \<Rightarrow> app \<times> error option" where
  "send_sms w loc a =
     (a\<lparr>alert_calls := alert_calls a @ [SmsAlertCall (profile_id (userProfile a)) loc]\<rparr>,
      case triggerSmsAlert (w_env w) (w_providers w) (profile_id (userProfile a)) loc of
        Inl e \<Rightarrow> Some e
      | Inr _ \<Rightarrow> None)"

text \<open>
  The alert of the threat-detected path: the location and the alert are in one \<open>try\<close>, and
  its handler sends the alert with the location \<open>{latitude: 0, longitude: 0}\<close>.
\<close>

definition threat_alert :: "world \<Rightarrow> app \<Rightarrow> app \<times> error option" where
  "threat_alert w a =
     (case getCurrentLocation (w_geo w) of
        Inl _ \<Rightarrow> send_sms w \<lparr>latitude = 0, longitude = 0\<rparr> a
      | Inr currentLocation \<Rightarrow>
          (case send_sms w currentLocation a of
             (a', Some _) \<Rightarrow> send_sms w \<lparr>latitude = 0, longitude = 0\<rparr> a'
           | (a', None) \<Rightarrow> (a', None)))"

text \<open>
  The body of the outer \<open>try\<close> of \<open>processAudio\<close>, for the audio blob \<open>b\<close>.
  \<open>audio.clearAudio()\<close> belongs to \<open>useAudioCapture\<close>, which is not among the sources; it
  is taken to drop the blob.
\<close>

definition process_try :: "world \<Rightarrow> Blob \<Rightarrow> app \<Rightarrow> app \<times> completion" where
  "process_try w b a =
     (case processAudioWorkflow (w_providers w) b of
        Inl e \<Rightarrow> (a, Threw e)
      | Inr result \<Rightarrow>
          (let a1 = a\<lparr>aura := updateAiResponse (ai_response result)
                                 (updateTranscription (transcription result) (aura a))\<rparr>
           in case playAudioResponse (w_providers w) (w_audio w) (ai_response result) of
                Threw e \<Rightarrow> (a1, Threw e)
              | Pending \<Rightarrow> (a1, Pending)
              | Completed \<Rightarrow>
                  (if threat_detected result
                   then (case threat_alert w (a1\<lparr>aura := triggerAlert (aura a1)\<rparr>) of
                           (a2, Some e) \<Rightarrow> (a2, Threw e)
                         | (a2, None) \<Rightarrow> (a2\<lparr>audioBlob := None\<rparr>, Completed))
                   else (a1\<lparr>audioBlob := None\<rparr>, Completed))))"

text \<open>
  \<open>processAudio\<close> runs when there is an audio blob and Aura is listening; the handler of
  its \<open>try\<close> only logs the error, and \<open>finally\<close> resets \<open>isProcessing\<close>. While the body
  waits for a promise that never settles, neither runs.
\<close>

definition processAudio :: "world \<Rightarrow> app \<Rightarrow> app" where
  "processAudio w a =
     (case audioBlob a of
        None \<Rightarrow> a
      | Some b \<Rightarrow>
          if aura_isListening (aura a)
          then (case process_try w b (a\<lparr>isProcessing := True\<rparr>) of
                  (a', Pending) \<Rightarrow> a'
                | (a', _) \<Rightarrow> a'\<lparr>isProcessing := False\<rparr>)
          else a)"

definition handleEmergencyVoiceActivate :: "world \<Rightarrow> app \<Rightarrow> app" where
  "handleEmergencyVoiceActivate w a =
     (let a1 = a\<lparr>aura := triggerEmergencyVoice (aura a), emergencyVoiceActive := True,
                 currentView := FakeCall\<rparr>
      in case getCurrentLocation (w_geo w) of
           Inl _ \<Rightarrow> a1
         | Inr currentLocation \<Rightarrow> fst (send_sms w currentLocation a1))"

definition handleEndCall :: "app \<Rightarrow> app" where
  "handleEndCall a =
     a\<lparr>aura := resetToIdle (aura a), emergencyVoiceActive := False, currentView := Home\<rparr>"

section \<open>useVoiceActivation\<close>

subsection \<open>The recognition objects of the browser\<close>

text \<open>
  \<open>startListening\<close> makes a new \<open>SpeechRecognition\<close> object at each call and gives it
  handlers that close over the values of \<open>triggerPhrase\<close>, \<open>enabled\<close>, \<open>language\<close> and
  \<open>permissionStatus\<close> of the render that made the callback.

  The browser side of an object follows the Web Speech API: \<open>start()\<close> throws on an
  object that was started and has not ended yet; \<open>stop()\<close> is ignored unless the object
  is running, and is followed by the \<open>end\<close> event.
\<close>

datatype PermissionStatus = Granted | Denied | Prompt | Unsupported

datatype rec_status = Inactive | Running | Stopping

record closure =
  c_triggerPhrase :: string
  c_enabled :: bool
  c_language :: string
  c_permissionStatus :: PermissionStatus

record recognition =
  status :: rec_status
  handlers :: closure

text \<open>
  What the hook does to the outside, with the time in milliseconds: a call of
  \<open>onActivate\<close>, a recognition object started, a running recognition object told to
  stop, and a call of \<open>stop()\<close> on an object that is not running, which the browser
  ignores.
\<close>

datatype action = Activated nat | Started nat nat | Stopped nat nat | StopIgnored nat nat

text \<open>
  The state of the hook: its four state variables, its props, whether the browser has
  speech recognition, the recognition objects made so far with \<open>recognitionRef\<close>
  pointing at the last one made, the pending timers (due time and the closure of the
  callback), the clock and the actions so far.
\<close>

record voice =
  isListening :: bool
  transcript :: string
  v_error :: "string option"
  permissionStatus :: PermissionStatus
  triggerPhrase :: string
  enabled :: bool
  language :: string
  supported :: bool
  recognitions :: "recognition list"
  recognitionRef :: "nat option"
  timers :: "(nat \<times> closure) list"
  clock :: nat
  actions :: "action list"

definition platform_start :: "nat \<Rightarrow> voice \<Rightarrow> error + voice" where
  "platform_start i v =
     (if i < length (recognitions v) \<and> status (recognitions v ! i) = Inactive
      then Inr (v\<lparr>recognitions := (recognitions v)[i := (recognitions v ! i)\<lparr>status := Running\<rparr>],
                   actions := actions v @ [Started i (clock v)]\<rparr>)
      else Inl (Error ''InvalidStateError''))"

definition platform_stop :: "nat \<Rightarrow> voice \<Rightarrow> voice" where
  "platform_stop i v =
     (if i < length (recognitions v) \<and> status (recognitions v ! i) = Running
      then v\<lparr>recognitions := (recognitions v)[i := (recognitions v ! i)\<lparr>status := Stopping\<rparr>],
              actions := actions v @ [Stopped i (clock v)]\<rparr>
      else v\<lparr>actions := actions v @ [StopIgnored i (clock v)]\<rparr>)"

subsection \<open>startListening, stopListening and the handlers\<close>

definition current_closure :: "voice \<Rightarrow> closure" where
  "current_closure v =
     \<lparr>c_triggerPhrase = triggerPhrase v, c_enabled = enabled v, c_language = language v,
      c_permissionStatus = permissionStatus v\<rparr>"

text \<open>\<open>startListening\<close> as the callback made in a render with the values \<open>c\<close>.\<close>

definition startListening_with :: "closure \<Rightarrow> voice \<Rightarrow> voice" where
  "startListening_with c v =
     (if \<not> supported v
      then v\<lparr>v_error := Some ''Speech recognition is not supported in this browser.''\<rparr>
      else
        (let i = length (recognitions v);
             v1 = v\<lparr>recognitions := recognitions v @ [\<lparr>status = Inactive, handlers = c\<rparr>],
                    recognitionRef := Some i\<rparr>
         in case platform_start i v1 of
              Inr v2 \<Rightarrow> v2
            | Inl (Error err) \<Rightarrow>
                v1\<lparr>v_error := Some (''Failed to start speech recognition: '' @ err),
                   isListening := False\<rparr>))"

definition startListening :: "voice \<Rightarrow> voice" where
  "startListening v = startListening_with (current_closure v) v"

definition stopListening :: "voice \<Rightarrow> voice" where
  "stopListening v =
     (case recognitionRef v of
        None \<Rightarrow> v
      | Some i \<Rightarrow> (platform_stop i v)\<lparr>isListening := False\<rparr>)"

text \<open>
  The effect on \<open>[enabled, permissionStatus]\<close>: when one of the two has changed, the
  cleanup of the last run stops the current recognition object, then the body runs.
\<close>

definition run_effect :: "voice \<Rightarrow> voice" where
  "run_effect v =
     (let v1 = (case recognitionRef v of None \<Rightarrow> v | Some i \<Rightarrow> platform_stop i v)
      in if enabled v1 \<and> permissionStatus v1 = Granted then startListening v1
         else if \<not> enabled v1 \<and> isListening v1 then stopListening v1
         else v1)"

definition setPermissionStatus :: "PermissionStatus \<Rightarrow> voice \<Rightarrow> voice" where
  "setPermissionStatus p v =
     (if permissionStatus v = p then v else run_effect (v\<lparr>permissionStatus := p\<rparr>))"

definition setEnabled :: "bool \<Rightarrow> voice \<Rightarrow> voice" where
  "setEnabled b v = (if enabled v = b then v else run_effect (v\<lparr>enabled := b\<rparr>))"

definition requestPermission :: "error option \<Rightarrow> voice \<Rightarrow> voice" where
  "requestPermission denied v =
     (case denied of
        None \<Rightarrow> setPermissionStatus Granted v
      | Some (Error err) \<Rightarrow>
          setPermissionStatus Denied
            (v\<lparr>v_error := Some (''Microphone permission denied: '' @ err)\<rparr>))"

text \<open>One entry of \<open>event.results\<close>: the transcript of its first alternative, and \<open>isFinal\<close>.\<close>

record speech_result =
  result_transcript :: string
  isFinal :: bool

definition currentTranscript :: "speech_result list \<Rightarrow> nat \<Rightarrow> string" where
  "currentTranscript results resultIndex =
     (let new = drop resultIndex results;
          finalTranscript = concat (map result_transcript (filter isFinal new));
          interimTranscript = concat (map result_transcript (filter (\<lambda>r. \<not> isFinal r) new))
      in if finalTranscript \<noteq> [] then finalTranscript else interimTranscript)"

definition onstart :: "voice \<Rightarrow> voice" where
  "onstart v = v\<lparr>isListening := True, v_error := None\<rparr>"

definition onresult :: "nat \<Rightarrow> speech_result list \<Rightarrow> nat \<Rightarrow> voice \<Rightarrow> voice" where
  "onresult i results resultIndex v =
     (let c = handlers (recognitions v ! i);
          text = currentTranscript results resultIndex;
          v1 = v\<lparr>transcript := text\<rparr>
      in if matchesTrigger text (c_triggerPhrase c)
         then (let v2 = v1\<lparr>actions := actions v1 @ [Activated (clock v1)]\<rparr>;
                   v3 = platform_stop i v2
               in v3\<lparr>timers := timers v3 @ [(clock v3 + 1000, c)]\<rparr>)
         else v1)"

definition onerror :: "string \<Rightarrow> voice \<Rightarrow> voice" where
  "onerror code v =
     (let v1 = v\<lparr>v_error := Some (''Speech recognition error: '' @ code)\<rparr>
      in if code = ''not-allowed'' then setPermissionStatus Denied v1 else v1)"

text \<open>
  \<open>onend\<close> starts the same object again when the closure says enabled and granted; an
  error thrown by that \<open>start()\<close> is not caught and changes nothing.
\<close>

definition onend :: "nat \<Rightarrow> voice \<Rightarrow> voice" where
  "onend i v =
     (let c = handlers (recognitions v ! i);
          v1 = v\<lparr>isListening := False\<rparr>
      in if c_enabled c \<and> c_permissionStatus c = Granted
         then (case platform_start i v1 of Inr v2 \<Rightarrow> v2 | Inl _ \<Rightarrow> v1)
         else v1)"

text \<open>The callback given to \<open>setTimeout\<close> in \<open>onresult\<close>.\<close>

definition restart_after_cooldown :: "closure \<Rightarrow> voice \<Rightarrow> voice" where
  "restart_after_cooldown c v = (if c_enabled c then startListening_with c v else v)"

subsection \<open>Events\<close>

text \<open>
  What can happen to the hook: its two functions are called, a prop or the permission
  changes, the browser fires an event on recognition object \<open>i\<close>, a timer that is due
  fires, time passes. An event of the browser needs an object in the right state:
  \<open>start\<close> a running one, the others one that has been started and has not ended.
\<close>

datatype event =
  CallStartListening
| CallStopListening
| SetEnabled bool
| PermissionChanged PermissionStatus
| RequestPermission "error option"
| OnStart nat
| OnResult nat "speech_result list" nat
| OnError nat string
| OnEnd nat
| TimerFires nat
| Tick nat

definition live :: "nat \<Rightarrow> voice \<Rightarrow> bool" where
  "live i v = (i < length (recognitions v) \<and> status (recognitions v ! i) \<noteq> Inactive)"

fun step :: "event \<Rightarrow> voice \<Rightarrow> voice option" where
  "step CallStartListening v = Some (startListening v)"
| "step CallStopListening v = Some (stopListening v)"
| "step (SetEnabled b) v = Some (setEnabled b v)"
| "step (PermissionChanged p) v =
     (if supported v \<and> p \<noteq> Unsupported then Some (setPermissionStatus p v) else None)"
| "step (RequestPermission denied) v = Some (requestPermission denied v)"
| "step (OnStart i) v =
     (if i < length (recognitions v) \<and> status (recognitions v ! i) = Running
      then Some (onstart v) else None)"
| "step (OnResult i results resultIndex) v =
     (if live i v then Some (onresult i results resultIndex v) else None)"
| "step (OnError i code) v = (if live i v then Some (onerror code v) else None)"
| "step (OnEnd i) v =
     (if live i v
      then Some (onend i
                  (v\<lparr>recognitions := (recognitions v)[i := (recognitions v ! i)\<lparr>status := Inactive\<rparr>]\<rparr>))
      else None)"
| "step (TimerFires k) v =
     (if k < length (timers v) \<and> fst (timers v ! k) \<le> clock v
      then Some (restart_after_cooldown (snd (timers v ! k))
                  (v\<lparr>timers := take k (timers v) @ drop (Suc k) (timers v)\<rparr>))
      else None)"
| "step (Tick ms) v = Some (v\<lparr>clock := clock v + ms\<rparr>)"

fun run :: "event list \<Rightarrow> voice \<Rightarrow> voice option" where
  "run [] v = Some v"
| "run (e # es) v = (case step e v of None \<Rightarrow> None | Some v' \<Rightarrow> run es v')"

text \<open>The hook after its first render and effects, for the given props.\<close>

definition mounted :: "bool \<Rightarrow> string \<Rightarrow> bool \<Rightarrow> string \<Rightarrow> voice" where
  "mounted has_recognition phrase on lang =
     \<lparr>isListening = False, transcript = [],
      v_error = (if has_recognition then None
                 else Some ''Speech recognition is not supported in this browser.''),
      permissionStatus = (if has_recognition then Prompt else Unsupported),
      triggerPhrase = phrase, enabled = on, language = lang, supported = has_recognition,
      recognitions = [], recognitionRef = None, timers = [], clock = 0, actions = []\<rparr>"

inductive reachable :: "voice \<Rightarrow> bool" where
  reachable_mounted: "reachable (mounted has_recognition phrase on lang)"
| reachable_step: "reachable v \<Longrightarrow> step e v = Some v' \<Longrightarrow> reachable v'"

text \<open>The invariant that ties \<open>recognitionRef\<close> to the objects made so far.\<close>

definition ref_ok :: "voice \<Rightarrow> bool" where
  "ref_ok v =
     (case recognitionRef v of
        None \<Rightarrow> recognitions v = [] \<and> \<not> isListening v
      | Some i \<Rightarrow> i < length (recognitions v))"

section \<open>Situations and concrete inputs\<close>

text \<open>The transcription provider fails: the request throws, is refused, or does not parse.\<close>

definition transcription_failed :: "providers \<Rightarrow> Blob \<Rightarrow> bool" where
  "transcription_failed p b =
     (case transcriber p b of Json _ \<Rightarrow> False | _ \<Rightarrow> True)"

text \<open>The location an alert of the threat-detected path is sent with.\<close>

definition location_or_fallback :: "geo \<Rightarrow> Location" where
  "location_or_fallback g =
     (case getCurrentLocation g of Inr l \<Rightarrow> l | Inl _ \<Rightarrow> \<lparr>latitude = 0, longitude = 0\<rparr>)"

text \<open>The alert provider fails for this request: anything but a parsed answer.\<close>

definition notification_failed :: "providers \<Rightarrow> string \<Rightarrow> string \<Rightarrow> Location \<Rightarrow> bool" where
  "notification_failed p url userId loc =
     (case notifier p url userId loc of Json _ \<Rightarrow> False | _ \<Rightarrow> True)"

text \<open>
  Concrete inputs. No environment variable is set, so the alert service is not
  configured; the user has no emergency contact yet; every provider is out of reach.
\<close>

definition no_env :: env where
  "no_env = \<lparr>VITE_SUPABASE_URL = None, VITE_SUPABASE_ANON_KEY = None\<rparr>"

definition offline :: providers where
  "offline =
     \<lparr>transcriber = (\<lambda>_. FetchThrows (Error ''Failed to fetch'')),
      llm = (\<lambda>_ _. FetchThrows (Error ''Failed to fetch'')),
      tts = (\<lambda>_. FetchThrows (Error ''Failed to fetch'')),
      notifier = (\<lambda>_ _ _. FetchThrows (Error ''Failed to fetch''))\<rparr>"

definition new_user :: UserProfile where
  "new_user =
     \<lparr>profile_id = ''user_1'', profile_name = [], emergencyContacts = [],
      voiceActivationEnabled = True, voiceActivationLanguage = ''en-US''\<rparr>"

definition home_app :: app where
  "home_app =
     \<lparr>aura = initial_aura, currentView = Home, isProcessing = False, sosProcessing = False,
      emergencyVoiceActive = False, userProfile = new_user, audioBlob = None,
      alert_calls = []\<rparr>"

text \<open>The application while Aura listens, with a captured audio blob to process.\<close>

definition listening_app :: app where
  "listening_app = home_app\<lparr>aura := activateAura initial_aura, audioBlob := Some [0]\<rparr>"

definition here :: Location where
  "here = \<lparr>latitude = 1, longitude = 2\<rparr>"

definition located_world :: world where
  "located_world =
     \<lparr>w_env = no_env, w_providers = offline, w_now = ''2025-01-01T00:00:00.000Z'',
      w_geo = Position here, w_audio = (\<lambda>_. Played)\<rparr>"

text \<open>The user has denied the location permission.\<close>

definition unlocated_world :: world where
  "unlocated_world = located_world\<lparr>w_geo := PositionError 1\<rparr>"


text \<open>
  The browser answers with an audio blob and then refuses to play it: neither \<open>ended\<close>
  nor \<open>error\<close> fires.
\<close>

definition stalled_world :: world where
  "stalled_world =
     located_world\<lparr>w_providers := offline\<lparr>tts := (\<lambda>_. Json [0])\<rparr>,
                    w_audio := (\<lambda>_. NeverSettles)\<rparr>"

text \<open>
  The hook as the application mounts it, the same hook once the microphone is granted and
  the session reports listening, the events of one detection of the trigger phrase, and
  the same events followed by the start of the second recognition object and two calls
  of \<open>stopListening\<close>.
\<close>

definition help_aura_session :: voice where
  "help_aura_session = mounted True ''Help Aura'' True ''en-US''"

definition listening_session :: voice where
  "listening_session = onstart (setPermissionStatus Granted help_aura_session)"

definition detection_trace :: "event list" where
  "detection_trace =
     [PermissionChanged Granted, Tick 5, OnStart 0, Tick 2000,
      OnResult 0 [\<lparr>result_transcript = ''help aura'', isFinal = True\<rparr>] 0,
      Tick 50, OnEnd 0, Tick 950, TimerFires 0]"

definition stop_twice_trace :: "event list" where
  "stop_twice_trace = detection_trace @ [OnStart 1, CallStopListening, CallStopListening]"

section \<open>The edit distance is the least cost of an edit script\<close>

lemma edits_snoc_keep: "edits n xs ys \<Longrightarrow> edits n (xs @ [x]) (ys @ [x])"
  by (induction rule: edits.induct) (auto intro: edits.intros)

lemma edits_snoc_subst: "edits n xs ys \<Longrightarrow> edits (Suc n) (xs @ [x]) (ys @ [y])"
  by (induction rule: edits.induct) (auto intro: edits.intros)

lemma edits_snoc_delete: "edits n xs ys \<Longrightarrow> edits (Suc n) (xs @ [x]) ys"
  by (induction rule: edits.induct) (auto intro: edits.intros)

lemma edits_snoc_insert: "edits n xs ys \<Longrightarrow> edits (Suc n) xs (ys @ [y])"
  by (induction rule: edits.induct) (auto intro: edits.intros)

lemma edits_rev: "edits n xs ys \<Longrightarrow> edits n (rev xs) (rev ys)"
  by (induction rule: edits.induct)
     (auto intro: edits_Nil edits_snoc_keep edits_snoc_subst edits_snoc_delete edits_snoc_insert)

lemma edit_distance_Nil_right: "edit_distance xs [] = length xs"
  by (cases xs) simp_all

lemma edits_insert_all: "edits (length ys) [] ys"
  by (induction ys) (auto intro: edits.intros)

lemma edits_delete_all: "edits (length xs) xs []"
  by (induction xs) (auto intro: edits.intros)

lemma edits_edit_distance: "edits (edit_distance xs ys) xs ys"
proof (induction xs ys rule: edit_distance.induct)
  case (1 ys)
  show ?case by (simp add: edits_insert_all)
next
  case (2 x xs)
  show ?case using edits_delete_all [of "x # xs"] by simp
next
  case (3 x xs y ys)
  let ?d = "edit_distance xs (y # ys) + 1"
  let ?i = "edit_distance (x # xs) ys + 1"
  let ?s = "edit_distance xs ys + (if x = y then 0 else 1)"
  have d: "edits ?d (x # xs) (y # ys)" using 3(1) by (auto intro: edits_delete)
  have i: "edits ?i (x # xs) (y # ys)" using 3(2) by (auto intro: edits_insert)
  have s: "edits ?s (x # xs) (y # ys)" using 3(3) by (auto intro: edits_keep edits_subst)
  have "edit_distance (x # xs) (y # ys) = ?d \<or> edit_distance (x # xs) (y # ys) = ?i
        \<or> edit_distance (x # xs) (y # ys) = ?s"
    by (simp add: min_def)
  with d i s show ?case by metis
qed

lemma edit_distance_delete_le: "edit_distance (x # xs) ys \<le> Suc (edit_distance xs ys)"
  by (cases ys) (simp_all add: edit_distance_Nil_right)

lemma edit_distance_insert_le: "edit_distance xs (y # ys) \<le> Suc (edit_distance xs ys)"
  by (cases xs) simp_all

lemma edit_distance_le: "edits n xs ys \<Longrightarrow> edit_distance xs ys \<le> n"
proof (induction rule: edits.induct)
  case edits_Nil
  show ?case by simp
next
  case (edits_keep n xs ys x)
  then show ?case by (simp add: min.coboundedI2)
next
  case (edits_subst n xs ys x y)
  then show ?case by (simp add: min.coboundedI2)
next
  case (edits_delete n xs ys x)
  then show ?case using edit_distance_delete_le [of x xs ys] by simp
next
  case (edits_insert n xs ys y)
  then show ?case using edit_distance_insert_le [of xs y ys] by simp
qed

lemma edit_distance_Least: "edit_distance xs ys = (LEAST n. edits n xs ys)"
  by (rule Least_equality [symmetric]) (auto intro: edits_edit_distance edit_distance_le)

lemma edit_distance_rev_le: "edit_distance (rev xs) (rev ys) \<le> edit_distance xs ys"
  by (rule edit_distance_le) (rule edits_rev, rule edits_edit_distance)

lemma edit_distance_rev: "edit_distance (rev xs) (rev ys) = edit_distance xs ys"
  using edit_distance_rev_le [of xs ys] edit_distance_rev_le [of "rev xs" "rev ys"] by simp

lemma edit_distance_snoc:
  "edit_distance (xs @ [x]) (ys @ [y]) =
     min (min (edit_distance xs (ys @ [y]) + 1) (edit_distance (xs @ [x]) ys + 1))
         (edit_distance xs ys + (if x = y then 0 else 1))"
proof -
  have "edit_distance (xs @ [x]) (ys @ [y]) = edit_distance (x # rev xs) (y # rev ys)"
    using edit_distance_rev [of "xs @ [x]" "ys @ [y]"] by simp
  also have "\<dots> = min (min (edit_distance (rev xs) (y # rev ys) + 1)
                        (edit_distance (x # rev xs) (rev ys) + 1))
                   (edit_distance (rev xs) (rev ys) + (if x = y then 0 else 1))"
    by simp
  also have "edit_distance (rev xs) (y # rev ys) = edit_distance xs (ys @ [y])"
    using edit_distance_rev [of xs "ys @ [y]"] by simp
  also have "edit_distance (x # rev xs) (rev ys) = edit_distance (xs @ [x]) ys"
    using edit_distance_rev [of "xs @ [x]" ys] by simp
  also have "edit_distance (rev xs) (rev ys) = edit_distance xs ys"
    by (rule edit_distance_rev)
  finally show ?thesis .
qed

section \<open>levenshteinDistance computes the edit distance\<close>

lemma for_each_upt:
  assumes "\<And>i. lo \<le> i \<Longrightarrow> i < hi \<Longrightarrow> body i (S i) = Some (S (Suc i))" and "lo \<le> hi"
  shows "for_each [lo..<hi] body (S lo) = Some (S hi)"
  using assms
proof (induction "hi - lo" arbitrary: lo)
  case 0
  then show ?case by simp
next
  case (Suc d)
  then have lt: "lo < hi" by simp
  have step: "body lo (S lo) = Some (S (Suc lo))" using Suc.prems(1) lt by simp
  have rest: "for_each [Suc lo..<hi] body (S (Suc lo)) = Some (S hi)"
    using Suc.hyps(1) [of "Suc lo"] Suc.hyps(2) Suc.prems(1) lt by simp
  show ?case using lt step rest by (simp add: upt_rec [of lo hi])
qed

lemma dist_upto_col0: "i \<le> length b \<Longrightarrow> dist_upto a b i 0 = i"
  by (simp add: dist_upto_def)

lemma dist_upto_row0: "j \<le> length a \<Longrightarrow> dist_upto a b 0 j = j"
  by (simp add: dist_upto_def edit_distance_Nil_right)

lemma dist_upto_step:
  assumes "0 < i" "i \<le> length b" "0 < j" "j \<le> length a"
  shows "dist_upto a b i j =
     min (min (dist_upto a b (i - 1) j + 1) (dist_upto a b i (j - 1) + 1))
         (dist_upto a b (i - 1) (j - 1) + (if a ! (j - 1) = b ! (i - 1) then 0 else 1))"
proof -
  have ta: "take j a = take (j - 1) a @ [a ! (j - 1)]"
    using assms(3,4) take_Suc_conv_app_nth [of "j - 1" a] by simp
  have tb: "take i b = take (i - 1) b @ [b ! (i - 1)]"
    using assms(1,2) take_Suc_conv_app_nth [of "i - 1" b] by simp
  have "dist_upto a b i j =
      edit_distance (take (j - 1) a @ [a ! (j - 1)]) (take (i - 1) b @ [b ! (i - 1)])"
    unfolding dist_upto_def using ta tb by simp
  also have "\<dots> = min (min (edit_distance (take (j - 1) a) (take (i - 1) b @ [b ! (i - 1)]) + 1)
                          (edit_distance (take (j - 1) a @ [a ! (j - 1)]) (take (i - 1) b) + 1))
                     (edit_distance (take (j - 1) a) (take (i - 1) b)
                        + (if a ! (j - 1) = b ! (i - 1) then 0 else 1))"
    by (rule edit_distance_snoc)
  also have "\<dots> = min (min (dist_upto a b i (j - 1) + 1) (dist_upto a b (i - 1) j + 1))
         (dist_upto a b (i - 1) (j - 1) + (if a ! (j - 1) = b ! (i - 1) then 0 else 1))"
    unfolding dist_upto_def using ta tb by simp
  finally show ?thesis
    by (simp only: min.commute [of "dist_upto a b i (j - 1) + 1"])
qed

lemma get_cell_table:
  "i \<le> length b \<Longrightarrow> j < w i \<Longrightarrow> get_cell (table a b w) i j = Some (dist_upto a b i j)"
  by (simp add: get_cell_def table_def js_get_def nth_append del: upt_Suc)

lemma table_update:
  assumes "i \<le> length b"
  shows "(table a b w)[i := Some (map (\<lambda>j. Some (dist_upto a b i j)) [0..<k])] = table a b (w(i := k))"
  by (rule nth_equalityI) (auto simp: table_def nth_list_update simp del: upt_Suc)

lemma set_cell_table_append:
  assumes "i \<le> length b"
  shows "set_cell i (w i) (dist_upto a b i (w i)) (table a b w) = Some (table a b (w(i := Suc (w i))))"
proof -
  have row: "js_get (table a b w) i = Some (map (\<lambda>j. Some (dist_upto a b i j)) [0..<w i])"
    using assms by (simp add: table_def js_get_def del: upt_Suc)
  have ext: "js_set (map (\<lambda>j. Some (dist_upto a b i j)) [0..<w i]) (w i) (dist_upto a b i (w i))
      = map (\<lambda>j. Some (dist_upto a b i j)) [0..<Suc (w i)]"
    by (simp add: js_set_def)
  have len: "i < length (table a b w)" using assms by (simp add: table_def)
  show ?thesis
    unfolding set_cell_def row ext using len table_update [OF assms, of a w "Suc (w i)"]
    by (simp add: js_set_def)
qed

lemma set_cell_table_overwrite:
  assumes "i \<le> length b" "j < w i"
  shows "set_cell i j (dist_upto a b i j) (table a b w) = Some (table a b w)"
proof -
  let ?row = "map (\<lambda>j. Some (dist_upto a b i j)) [0..<w i]"
  have row: "js_get (table a b w) i = Some ?row"
    using assms by (simp add: table_def js_get_def del: upt_Suc)
  have same: "js_set ?row j (dist_upto a b i j) = ?row"
    using assms(2) by (simp add: js_set_def list_update_same_conv)
  have len: "i < length (table a b w)" using assms by (simp add: table_def)
  have "set_cell i j (dist_upto a b i j) (table a b w)
      = Some (js_set (table a b w) i (js_set ?row j (dist_upto a b i j)))"
    by (simp add: set_cell_def row)
  also have "\<dots> = Some ((table a b w)[i := Some ?row])"
    using len by (simp only: same) (simp add: js_set_def)
  also have "\<dots> = Some (table a b w)"
    using table_update [OF assms(1), of a w "w i"] by simp
  finally show ?thesis .
qed

lemma init_rows:
  "for_each [0..<Suc (length b)] set_row [] = Some (table a b (\<lambda>_. 1))"
proof -
  let ?S = "\<lambda>i. map (\<lambda>i. Some [Some i]) [0..<i]"
  have "for_each [0..<Suc (length b)] set_row (?S 0) = Some (?S (Suc (length b)))"
    by (rule for_each_upt) (simp_all add: set_row_def js_set_def)
  moreover have "?S (Suc (length b)) = table a b (\<lambda>_. 1)"
    unfolding table_def by (rule map_cong) (auto simp: dist_upto_col0)
  ultimately show ?thesis by simp
qed

lemma init_first_row:
  "for_each [0..<Suc (length a)] (\<lambda>j. set_cell 0 j j) (table a b (\<lambda>_. 1))
     = Some (table a b ((\<lambda>_. 1)(0 := Suc (length a))))"
proof -
  let ?S = "\<lambda>j. table a b ((\<lambda>_. 1)(0 := j))"
  have one: "(\<lambda>_::nat. 1::nat)(0 := 1) = (\<lambda>_. 1)"
    by (rule ext) simp
  have "set_cell 0 0 (dist_upto a b 0 0) (table a b (\<lambda>_. 1)) = Some (table a b (\<lambda>_. 1))"
    by (rule set_cell_table_overwrite) simp_all
  then have first: "set_cell 0 0 0 (table a b (\<lambda>_. 1)) = Some (?S 1)"
    by (simp only: one dist_upto_col0 [of 0 b a, simplified])
  have step: "set_cell 0 j j (?S j) = Some (?S (Suc j))" if "j \<le> length a" for j
    using set_cell_table_append [of 0 b "(\<lambda>_. 1)(0 := j)" a] that
    by (simp add: dist_upto_row0)
  have rest: "for_each [1..<Suc (length a)] (\<lambda>j. set_cell 0 j j) (?S 1) = Some (?S (Suc (length a)))"
  proof (rule for_each_upt [where S = ?S])
    fix j :: nat
    assume "1 \<le> j" "j < Suc (length a)"
    then have "j \<le> length a" by simp
    then show "set_cell 0 j j (?S j) = Some (?S (Suc j))" by (rule step)
  next
    show "1 \<le> Suc (length a)" by simp
  qed
  have "[0..<Suc (length a)] = 0 # [Suc 0..<Suc (length a)]"
    by (rule upt_conv_Cons) simp
  then have split: "[0..<Suc (length a)] = 0 # [1..<Suc (length a)]"
    by (simp only: One_nat_def)
  show ?thesis
    by (simp only: split for_each.simps first option.case rest)
qed

lemma fill_cell_table:
  assumes i: "0 < i" "i \<le> length b" and j: "0 < j" "j \<le> length a"
    and w: "w i = j" "j < w (i - 1)"
  shows "fill_cell a b i j (table a b w) = Some (table a b (w(i := Suc j)))"
proof -
  have inside: "j - 1 < length a" "i - 1 < length b" "i - 1 \<le> length b" "j - 1 < w i"
    using i j w by auto
  have cost: "(char_at a (j - 1) = char_at b (i - 1)) = (a ! (j - 1) = b ! (i - 1))"
    using inside by (simp add: char_at_def)
  have del: "get_cell (table a b w) (i - 1) j = Some (dist_upto a b (i - 1) j)"
    using inside w by (simp add: get_cell_table)
  have ins: "get_cell (table a b w) i (j - 1) = Some (dist_upto a b i (j - 1))"
    using inside i by (simp add: get_cell_table)
  have sub: "get_cell (table a b w) (i - 1) (j - 1) = Some (dist_upto a b (i - 1) (j - 1))"
    using inside j w by (simp add: get_cell_table)
  have "fill_cell a b i j (table a b w) = set_cell i j (dist_upto a b i j) (table a b w)"
    unfolding fill_cell_def Let_def del ins sub cost
    using dist_upto_step [OF i j] by simp
  also have "\<dots> = Some (table a b (w(i := Suc j)))"
    using set_cell_table_append [OF i(2), of w a] w(1) by simp
  finally show ?thesis .
qed

lemma fill_row_table:
  assumes i: "0 < i" "i \<le> length b"
  shows "fill_row a b i (filled a b (i - 1)) = Some (filled a b i)"
proof -
  define w where "w = (\<lambda>r. if r \<le> i - 1 then Suc (length a) else (1::nat))"
  let ?S = "\<lambda>j. table a b (w(i := j))"
  have body: "fill_cell a b i j (?S j) = Some (?S (Suc j))" if "1 \<le> j" "j < Suc (length a)" for j
  proof -
    have "0 < j" "j \<le> length a" "(w(i := j)) i = j" "j < (w(i := j)) (i - 1)"
      using that i by (auto simp: w_def)
    then have "fill_cell a b i j (table a b (w(i := j)))
        = Some (table a b ((w(i := j))(i := Suc j)))"
      by (rule fill_cell_table [OF i])
    then show ?thesis by (simp only: fun_upd_upd)
  qed
  have run: "for_each [1..<Suc (length a)] (fill_cell a b i) (?S 1) = Some (?S (Suc (length a)))"
    by (rule for_each_upt) (simp_all only: body le_add1 plus_1_eq_Suc)
  have start: "w(i := 1) = w" using i by (auto simp: w_def)
  have stop: "w(i := Suc (length a)) = (\<lambda>r. if r \<le> i then Suc (length a) else 1)"
    using i by (auto simp: w_def)
  have "for_each [1..<Suc (length a)] (fill_cell a b i) (table a b w)
      = Some (table a b (\<lambda>r. if r \<le> i then Suc (length a) else 1))"
    using run by (simp only: start stop)
  then show ?thesis
    unfolding fill_row_def filled_def w_def .
qed

lemma fill_rows:
  "for_each [1..<Suc (length b)] (fill_row a b) (filled a b 0) = Some (filled a b (length b))"
proof -
  have "for_each [1..<Suc (length b)] (fill_row a b) (filled a b (1 - 1))
      = Some (filled a b (Suc (length b) - 1))"
    by (rule for_each_upt [where S = "\<lambda>i. filled a b (i - 1)"])
       (use fill_row_table [of _ b a] in auto)
  then show ?thesis by simp
qed

lemma levenshteinDistance_refines: "levenshteinDistance a b = Some (edit_distance a b)"
proof (cases "length a = 0 \<or> length b = 0")
  case True
  then show ?thesis by (auto simp: levenshteinDistance_def edit_distance_Nil_right)
next
  case False
  have w0: "(\<lambda>_::nat. 1::nat)(0 := Suc (length a)) = (\<lambda>r. if r \<le> 0 then Suc (length a) else 1)"
    by (auto simp: fun_eq_iff)
  have m2: "for_each [0..<Suc (length a)] (\<lambda>j. set_cell 0 j j) (table a b (\<lambda>_. 1))
      = Some (filled a b 0)"
    unfolding filled_def using init_first_row [of a b] by (simp only: w0)
  have last: "get_cell (filled a b (length b)) (length b) (length a) = Some (edit_distance a b)"
    unfolding filled_def by (simp add: get_cell_table dist_upto_def)
  from False have ne: "length a \<noteq> 0" "length b \<noteq> 0"
    by auto
  show ?thesis
    by (simp only: levenshteinDistance_def ne if_False init_rows [of b a] option.case m2
          fill_rows last)
qed

lemma kitten_sitting: "levenshteinDistance ''kitten'' ''sitting'' = Some 3"
  by code_simp

text \<open>
  C7. \<open>levenshteinDistance\<close> returns, for every pair of strings, the classic unit-cost edit
  distance: the value of the textbook recursion, which is the least cost of an edit
  script of insertions, deletions and substitutions from the one string to the other.
  It is a function of its two arguments, and on "kitten" and "sitting" it returns 3.
\<close>

theorem levenshteinDistance_classic:
  "levenshteinDistance a b = Some (edit_distance a b)
   \<and> edit_distance a b = (LEAST n. edits n a b)
   \<and> levenshteinDistance ''kitten'' ''sitting'' = Some 3"
proof (intro conjI)
  show "levenshteinDistance a b = Some (edit_distance a b)"
    by (rule levenshteinDistance_refines)
  show "edit_distance a b = (LEAST n. edits n a b)"
    by (rule edit_distance_Least)
  show "levenshteinDistance ''kitten'' ''sitting'' = Some 3"
    by (rule kitten_sitting)
qed

theorem levenshteinDistance_classic_witness:
  "levenshteinDistance ''help'' ''halp'' = Some 1 \<and> edits 1 ''help'' ''halp''"
proof -
  have d: "edit_distance ''help'' ''halp'' = 1"
    by simp
  have "levenshteinDistance ''help'' ''halp'' = Some (edit_distance ''help'' ''halp'')"
    using levenshteinDistance_classic [of "''help''" "''halp''"] by (rule conjunct1)
  moreover have "edits (edit_distance ''help'' ''halp'') ''help'' ''halp''"
    by (rule edits_edit_distance)
  ultimately show ?thesis
    by (simp only: d)
qed

section \<open>Threat detection and the audio pipeline\<close>

lemma js_includes_sublist: "js_includes s sub = sublist sub s"
  by (induction s) (simp_all add: sublist_Cons_right)

lemma split_on_not_Nil: "split_on d s \<noteq> []"
  by (induction s) (auto split: list.splits)

lemma detectThreat_sublist:
  "detectThreat t = (\<exists>k. k \<in> set threatKeywords \<and> sublist k (toLowerCase t))"
  unfolding detectThreat_def Let_def list_ex_iff js_includes_sublist by blast

lemma detectThreat_stop_following: "detectThreat ''please stop following me''"
  by code_simp

lemma detectThreat_nice_day: "\<not> detectThreat ''what a nice day''"
  by code_simp






lemma triggerSmsAlert_returns: "\<exists>r. triggerSmsAlert e p userId loc = Inr r"
  by (auto simp: triggerSmsAlert_def split: sum.splits)

lemma triggerSOSAlert_returns: "\<exists>r. triggerSOSAlert e p now userId loc = Inr r"
  by (auto simp: triggerSOSAlert_def split: sum.splits)

lemma send_sms_completes:
  "send_sms w loc a =
     (a\<lparr>alert_calls := alert_calls a @ [SmsAlertCall (profile_id (userProfile a)) loc]\<rparr>, None)"
  using triggerSmsAlert_returns [of "w_env w" "w_providers w" "profile_id (userProfile a)" loc]
  by (auto simp: send_sms_def)

lemma threat_alert_sends_once:
  "threat_alert w a =
     (a\<lparr>alert_calls := alert_calls a @
          [SmsAlertCall (profile_id (userProfile a)) (location_or_fallback (w_geo w))]\<rparr>, None)"
  by (simp add: threat_alert_def send_sms_completes location_or_fallback_def split: sum.splits)


lemma processAudio_playback_throws:
  assumes "audioBlob a = Some b" "aura_isListening (aura a)"
    and "processAudioWorkflow (w_providers w) b = Inr r"
    and "playAudioResponse (w_providers w) (w_audio w) (ai_response r) = Threw e"
  shows "aura_state (aura (processAudio w a)) = aura_state (aura a)
       \<and> alert_calls (processAudio w a) = alert_calls a
       \<and> \<not> isProcessing (processAudio w a)"
  using assms
  by (simp add: processAudio_def process_try_def Let_def
        updateAiResponse_def updateTranscription_def)

lemma processAudio_playback_pending:
  assumes "audioBlob a = Some b" "aura_isListening (aura a)"
    and "processAudioWorkflow (w_providers w) b = Inr r"
    and "playAudioResponse (w_providers w) (w_audio w) (ai_response r) = Pending"
  shows "aura_state (aura (processAudio w a)) = aura_state (aura a)
       \<and> alert_calls (processAudio w a) = alert_calls a
       \<and> isProcessing (processAudio w a)"
  using assms
  by (simp add: processAudio_def process_try_def Let_def
        updateAiResponse_def updateTranscription_def)

text \<open>
  C8. \<open>detectThreat\<close> is true exactly when the lower-cased transcript contains one of
  the threat keywords as a substring. It is true on "please stop following me" and false
  on "what a nice day".
\<close>

theorem detectThreat_iff_keyword:
  "detectThreat t = (\<exists>k. k \<in> set threatKeywords \<and> sublist k (toLowerCase t))
   \<and> detectThreat ''please stop following me'' = True
   \<and> detectThreat ''what a nice day'' = False"
  using detectThreat_sublist [of t] detectThreat_stop_following detectThreat_nice_day
  by simp



text \<open>
  The same run when the browser never settles the playback: \<open>processAudio\<close> stays at the
  \<open>await\<close>, still processing, and no alert is sent.
\<close>

lemma stalled_playback_skips_alert:
  "transcription_failed (w_providers stalled_world) [0]
   \<and> playAudioResponse (w_providers stalled_world) (w_audio stalled_world)
        (getAIResponse (w_providers stalled_world) fallback_transcript True) = Pending
   \<and> aura_state (aura (processAudio stalled_world listening_app)) = ACTIVE
   \<and> alert_calls (processAudio stalled_world listening_app) = []
   \<and> isProcessing (processAudio stalled_world listening_app)"
  by code_simp



section \<open>The fuzzy trigger matcher\<close>

lemma list_ex_or_const:
  "xs \<noteq> [] \<Longrightarrow> list_ex (\<lambda>x. (P x \<and> B) \<or> C) xs = ((list_ex P xs \<and> B) \<or> C)"
  by (cases xs) (auto simp: list_ex_iff)

lemma matchesTrigger_grouping:
  "matchesTrigger t p =
     (let nt = trim (toLowerCase t); np = trim (toLowerCase p)
      in sublist np nt
       \<or> sublist (remove1 (CHR '' '') np) nt
       \<or> edit_distance nt np \<le> 2
       \<or> (list_ex (\<lambda>word. edit_distance word ''help'' \<le> 1) (split_on (CHR '' '') nt)
            \<and> sublist ''aura'' nt)
       \<or> sublist ''aurora'' nt)"
  unfolding matchesTrigger_def Let_def
  by (simp only: js_includes_sublist levenshteinDistance_refines is_at_most_def option.case
        replace_first_space_def list_ex_or_const [OF split_on_not_Nil])

lemma normalized_aurora: "trim (toLowerCase ''aurora'') = ''aurora''"
  by code_simp

lemma normalized_help_aura: "trim (toLowerCase ''Help Aura'') = ''help aura''"
  by code_simp

lemma aurora_far_from_trigger: "levenshteinDistance ''aurora'' ''help aura'' = Some 7"
  by code_simp

lemma aurora_far_from_help: "levenshteinDistance ''aurora'' ''help'' = Some 6"
  by code_simp

text \<open>
  C1. The transcript "aurora" and the trigger phrase "Help Aura": none of the four
  conditions of the specification holds (no word is within distance 1 of "help"), and the
  matcher of the code returns true, because \<open>includes('aurora')\<close> alone satisfies the
  predicate given to \<open>some\<close>.
\<close>

theorem matchesTrigger_aurora_alone:
  "matchesTrigger ''aurora'' ''Help Aura'' \<and> \<not> spec_matches ''aurora'' ''Help Aura''"
proof
  show "matchesTrigger ''aurora'' ''Help Aura''"
    unfolding matchesTrigger_grouping Let_def normalized_aurora by simp
  have d1: "edit_distance ''aurora'' ''help aura'' = 7"
    using aurora_far_from_trigger by (simp only: levenshteinDistance_refines option.inject)
  have d2: "edit_distance ''aurora'' ''help'' = 6"
    using aurora_far_from_help by (simp only: levenshteinDistance_refines option.inject)
  have s1: "\<not> sublist ''help aura'' ''aurora''"
    using sublist_length_le [of "''help aura''" "''aurora''"] by auto
  have s2: "\<not> sublist (filter (\<lambda>c. \<not> isWhiteSpace c) ''help aura'') ''aurora''"
    using sublist_length_le [of "filter (\<lambda>c. \<not> isWhiteSpace c) ''help aura''" "''aurora''"]
    by (auto simp: isWhiteSpace_def)
  have w: "split_on (CHR '' '') ''aurora'' = [''aurora'']"
    by simp
  show "\<not> spec_matches ''aurora'' ''Help Aura''"
    unfolding spec_matches_def Let_def normalized_aurora normalized_help_aura
    using s1 s2 by (simp only: d1 d2 w) simp
qed

section \<open>The safety state\<close>

text \<open>
  C3, the claim as stated fails: from the home screen the emergency voice button gives
  \<open>EMERGENCY_VOICE\<close>, and the voice trigger, which calls \<open>handleSOSActivate\<close> in any
  state, then gives \<open>SOS_ACTIVE\<close>; the table has no edge for \<open>sosTrigger\<close> from
  \<open>EmergencyVoice\<close>.
\<close>

theorem sos_from_emergency_voice:
  "aura_state (aura (handleEmergencyVoiceActivate located_world home_app)) = EMERGENCY_VOICE
   \<and> aura_state (aura (handleSOSActivate located_world
                         (handleEmergencyVoiceActivate located_world home_app))) = SOS_ACTIVE
   \<and> \<not> spec_edge OpSosTrigger EMERGENCY_VOICE SOS_ACTIVE"
  by code_simp

text \<open>
  C3, amended. Each operation on the safety state sets it to the target state the table
  gives for the operation, from whatever state it is called in; in particular every edge
  of the table is a transition of the code.
\<close>

theorem aura_operations_set_target:
  "aura_state (apply_op op h) = target op
   \<and> (spec_edge op (aura_state h) t \<longrightarrow> aura_state (apply_op op h) = t)"
  by (cases op)
     (simp_all add: activateAura_def deactivateAura_def triggerAlert_def triggerSOS_def
        triggerEmergencyVoice_def resetToIdle_def)

text \<open>
  The amended C3 at the edge from \<open>Idle\<close> to \<open>SOSActive\<close>.
\<close>

theorem aura_operations_set_target_witness:
  "spec_edge OpSosTrigger (aura_state initial_aura) SOS_ACTIVE
   \<and> aura_state (apply_op OpSosTrigger initial_aura) = SOS_ACTIVE"
  using aura_operations_set_target [of OpSosTrigger initial_aura SOS_ACTIVE]
  by (simp add: initial_aura_def)

section \<open>Alert dispatch\<close>

lemma triggerSOSAlert_degraded:
  assumes "not_configured e \<or> notification_failed p (baseUrl e @ ''/send-sos-alert'') userId loc"
  shows "\<exists>m. triggerSOSAlert e p now userId loc =
           Inr \<lparr>success = True, message = Some m,
                data = Some \<lparr>contactsNotified = 3, alert_location = Some loc, timestamp = now\<rparr>\<rparr>"
  using assms
  by (auto simp: triggerSOSAlert_def sos_try_def notification_failed_def split: fetched.splits)

lemma triggerSOSAlert_verbatim:
  assumes "\<not> not_configured e" "notifier p (baseUrl e @ ''/send-sos-alert'') userId loc = Json r"
  shows "triggerSOSAlert e p now userId loc = Inr r"
  using assms by (simp add: triggerSOSAlert_def sos_try_def)

lemma triggerSmsAlert_degraded:
  assumes "not_configured e \<or> notification_failed p (baseUrl e @ ''/send-aura-alert'') userId loc"
  shows "\<exists>m. triggerSmsAlert e p userId loc = Inr \<lparr>success = True, message = Some m, data = None\<rparr>"
  using assms
  by (auto simp: triggerSmsAlert_def sms_try_def notification_failed_def split: fetched.splits)

lemma triggerSmsAlert_verbatim:
  assumes "\<not> not_configured e" "notifier p (baseUrl e @ ''/send-aura-alert'') userId loc = Json r"
  shows "triggerSmsAlert e p userId loc = Inr r"
  using assms by (simp add: triggerSmsAlert_def sms_try_def)

lemma no_env_not_configured: "not_configured no_env"
  by (simp add: not_configured_def no_env_def SUPABASE_URL_def or_default_def)

text \<open>
  C4, the claim as stated fails: a user with no emergency contact, the alert service not
  configured. The result recorded by the SOS path reports three contacts notified.
\<close>

theorem sos_notifies_three_of_no_contacts:
  "emergencyContacts (userProfile home_app) = []
   \<and> sosAlertResult (aura (handleSOSActivate located_world home_app)) =
       Some \<lparr>success = True,
             message = Some ''Critical SOS alert sent successfully (mock response - Supabase not configured)'',
             data = Some \<lparr>contactsNotified = 3, alert_location = Some here,
                          timestamp = ''2025-01-01T00:00:00.000Z''\<rparr>\<rparr>"
  by code_simp

text \<open>
  C4, amended. When the alert service is not configured or fails, the result of
  \<open>triggerSOSAlert\<close> has \<open>contactsNotified\<close> 3, a fixed number that does not depend on
  the emergency contacts; when the service answers, its answer is returned as it is.
\<close>

theorem degraded_sos_result_placeholder:
  "(not_configured e \<or> notification_failed p (baseUrl e @ ''/send-sos-alert'') userId loc
      \<longrightarrow> (\<exists>m. triggerSOSAlert e p now userId loc =
             Inr \<lparr>success = True, message = Some m,
                  data = Some \<lparr>contactsNotified = 3, alert_location = Some loc,
                               timestamp = now\<rparr>\<rparr>))
   \<and> (\<not> not_configured e \<and> notifier p (baseUrl e @ ''/send-sos-alert'') userId loc = Json r
      \<longrightarrow> triggerSOSAlert e p now userId loc = Inr r)"
  using triggerSOSAlert_degraded [of e p userId loc now]
        triggerSOSAlert_verbatim [of e p userId loc r now]
  by blast

text \<open>
  The amended C4 with the alert service not configured.
\<close>

theorem degraded_sos_result_placeholder_witness:
  "not_configured no_env
   \<and> (\<exists>m. triggerSOSAlert no_env offline ''now'' ''user_1'' here =
           Inr \<lparr>success = True, message = Some m,
                data = Some \<lparr>contactsNotified = 3, alert_location = Some here,
                             timestamp = ''now''\<rparr>\<rparr>)"
  using degraded_sos_result_placeholder [of no_env offline "''user_1''" here "''now''"]
        no_env_not_configured
  by simp

text \<open>
  C5, the claim as stated fails: the result of \<open>triggerSmsAlert\<close> with the alert service
  not configured has a success flag and a message, and no \<open>contactsNotified\<close>.
\<close>

theorem sms_result_has_no_contact_count:
  "triggerSmsAlert no_env offline ''user_1'' here =
     Inr \<lparr>success = True,
          message = Some ''Emergency alert sent successfully (mock response - Supabase not configured)'',
          data = None\<rparr>"
  by code_simp

text \<open>
  C5, amended. \<open>triggerSmsAlert\<close> and \<open>triggerSOSAlert\<close> return for every input and never
  throw. When the alert service is not configured or fails, both results have
  \<open>success\<close> true; the result of \<open>triggerSOSAlert\<close> has \<open>contactsNotified\<close> 3, which is not
  negative, and the result of \<open>triggerSmsAlert\<close> has no contact count.
\<close>

theorem alert_dispatch_never_raises:
  "(\<exists>r. triggerSmsAlert e p userId loc = Inr r)
   \<and> (\<exists>r. triggerSOSAlert e p now userId loc = Inr r)
   \<and> (not_configured e \<or> notification_failed p (baseUrl e @ ''/send-aura-alert'') userId loc
      \<longrightarrow> (\<exists>m. triggerSmsAlert e p userId loc =
             Inr \<lparr>success = True, message = Some m, data = None\<rparr>))
   \<and> (not_configured e \<or> notification_failed p (baseUrl e @ ''/send-sos-alert'') userId loc
      \<longrightarrow> (\<exists>r d. triggerSOSAlert e p now userId loc = Inr r \<and> success r
                  \<and> data r = Some d \<and> contactsNotified d = 3 \<and> 0 \<le> contactsNotified d))"
proof (intro conjI impI)
  show "\<exists>r. triggerSmsAlert e p userId loc = Inr r"
    by (rule triggerSmsAlert_returns)
  show "\<exists>r. triggerSOSAlert e p now userId loc = Inr r"
    by (rule triggerSOSAlert_returns)
next
  assume "not_configured e \<or> notification_failed p (baseUrl e @ ''/send-aura-alert'') userId loc"
  then show "\<exists>m. triggerSmsAlert e p userId loc =
             Inr \<lparr>success = True, message = Some m, data = None\<rparr>"
    by (rule triggerSmsAlert_degraded)
next
  assume "not_configured e \<or> notification_failed p (baseUrl e @ ''/send-sos-alert'') userId loc"
  then obtain m where "triggerSOSAlert e p now userId loc =
      Inr \<lparr>success = True, message = Some m,
           data = Some \<lparr>contactsNotified = 3, alert_location = Some loc, timestamp = now\<rparr>\<rparr>"
    using triggerSOSAlert_degraded by blast
  then show "\<exists>r d. triggerSOSAlert e p now userId loc = Inr r \<and> success r
                  \<and> data r = Some d \<and> contactsNotified d = 3 \<and> 0 \<le> contactsNotified d"
    by simp
qed

text \<open>
  The amended C5 with every provider out of reach.
\<close>

theorem alert_dispatch_never_raises_witness:
  "notification_failed offline (baseUrl no_env @ ''/send-sos-alert'') ''user_1'' here
   \<and> notification_failed offline (baseUrl no_env @ ''/send-aura-alert'') ''user_1'' here
   \<and> (\<exists>m. triggerSmsAlert no_env offline ''user_1'' here =
           Inr \<lparr>success = True, message = Some m, data = None\<rparr>)
   \<and> (\<exists>r d. triggerSOSAlert no_env offline ''now'' ''user_1'' here = Inr r \<and> success r
           \<and> data r = Some d \<and> contactsNotified d = 3)"
proof -
  have f: "notification_failed offline url ''user_1'' here" for url
    by (simp add: notification_failed_def offline_def)
  show ?thesis
    using alert_dispatch_never_raises [of no_env offline "''user_1''" here "''now''"] f
    by auto
qed

section \<open>Location failures\<close>

lemma handleSOSActivate_location_failure:
  assumes "getCurrentLocation (w_geo w) = Inl err"
  shows "alert_calls (handleSOSActivate w a) = alert_calls a
       \<and> sosAlertResult (aura (handleSOSActivate w a)) =
           Some \<lparr>success = False,
                 message = Some ''Error sending alert, but emergency contacts may have been notified'',
                 data = Some \<lparr>contactsNotified = 0, alert_location = None,
                              timestamp = w_now w\<rparr>\<rparr>"
  using assms
  by (simp add: handleSOSActivate_def Let_def sos_failed_def updateSOSResult_def triggerSOS_def)

lemma threat_alert_location_failure:
  assumes "getCurrentLocation (w_geo w) = Inl err"
  shows "alert_calls (fst (threat_alert w a)) =
           alert_calls a @ [SmsAlertCall (profile_id (userProfile a)) \<lparr>latitude = 0, longitude = 0\<rparr>]"
  using assms by (simp add: threat_alert_sends_once location_or_fallback_def)

text \<open>
  C6. The user has denied the location permission. \<open>handleSOSActivate\<close> then leaves its
  \<open>try\<close> before \<open>triggerSOSAlert\<close> is called: no alert is sent and the recorded result
  has \<open>success\<close> false. The threat-detected path, in the same situation, sends its alert
  with the location \<open>{latitude: 0, longitude: 0}\<close>.
\<close>

theorem sos_without_location_sends_nothing:
  "getCurrentLocation (w_geo unlocated_world) = Inl (Error ''Location access denied by user'')
   \<and> alert_calls (handleSOSActivate unlocated_world home_app) = []
   \<and> sosAlertResult (aura (handleSOSActivate unlocated_world home_app)) =
       Some \<lparr>success = False,
             message = Some ''Error sending alert, but emergency contacts may have been notified'',
             data = Some \<lparr>contactsNotified = 0, alert_location = None,
                          timestamp = ''2025-01-01T00:00:00.000Z''\<rparr>\<rparr>
   \<and> alert_calls (fst (threat_alert unlocated_world home_app)) =
       [SmsAlertCall ''user_1'' \<lparr>latitude = 0, longitude = 0\<rparr>]"
  by code_simp

section \<open>The recognition session\<close>

lemma platform_stop_frame [simp]:
  "recognitionRef (platform_stop i v) = recognitionRef v"
  "isListening (platform_stop i v) = isListening v"
  "length (recognitions (platform_stop i v)) = length (recognitions v)"
  "enabled (platform_stop i v) = enabled v"
  "permissionStatus (platform_stop i v) = permissionStatus v"
  "supported (platform_stop i v) = supported v"
  "timers (platform_stop i v) = timers v"
  "clock (platform_stop i v) = clock v"
  by (simp_all add: platform_stop_def)

lemma platform_stop_not_running:
  "i < length (recognitions v) \<Longrightarrow> status (recognitions (platform_stop i v) ! i) \<noteq> Running"
  by (simp add: platform_stop_def)

lemma platform_stop_isListening:
  "platform_stop i (v\<lparr>isListening := b\<rparr>) = (platform_stop i v)\<lparr>isListening := b\<rparr>"
  by (simp add: platform_stop_def)

lemma platform_start_frame:
  assumes "platform_start i v = Inr v'"
  shows "recognitionRef v' = recognitionRef v" "isListening v' = isListening v"
    "length (recognitions v') = length (recognitions v)"
  using assms by (auto simp: platform_start_def split: if_splits)

lemma ref_ok_frame:
  assumes "ref_ok v" "recognitionRef v' = recognitionRef v"
    "length (recognitions v') = length (recognitions v)" "isListening v' \<longrightarrow> isListening v"
  shows "ref_ok v'"
  using assms by (auto simp: ref_ok_def split: option.splits)

lemma ref_ok_platform_stop: "ref_ok v \<Longrightarrow> ref_ok (platform_stop i v)"
  by (rule ref_ok_frame [where v = v]) simp_all

lemma ref_ok_platform_start: "ref_ok v \<Longrightarrow> platform_start i v = Inr v' \<Longrightarrow> ref_ok v'"
  by (rule ref_ok_frame [where v = v]) (simp_all add: platform_start_frame)

lemma ref_ok_startListening_with: "ref_ok v \<Longrightarrow> ref_ok (startListening_with c v)"
  by (auto simp: startListening_with_def Let_def ref_ok_def platform_start_def
           split: option.splits sum.splits error.splits)

lemma ref_ok_stopListening: "ref_ok v \<Longrightarrow> ref_ok (stopListening v)"
  by (auto simp: stopListening_def ref_ok_def split: option.splits)

lemma ref_ok_run_effect: "ref_ok v \<Longrightarrow> ref_ok (run_effect v)"
proof -
  assume ok: "ref_ok v"
  define v1 where "v1 = (case recognitionRef v of None \<Rightarrow> v | Some i \<Rightarrow> platform_stop i v)"
  have "ref_ok v1"
    unfolding v1_def using ok by (auto split: option.splits intro: ref_ok_platform_stop)
  then show ?thesis
    unfolding run_effect_def v1_def [symmetric] Let_def startListening_def
    by (simp add: ref_ok_startListening_with ref_ok_stopListening)
qed

lemma ref_ok_setPermissionStatus: "ref_ok v \<Longrightarrow> ref_ok (setPermissionStatus p v)"
proof -
  assume ok: "ref_ok v"
  have "ref_ok (v\<lparr>permissionStatus := p\<rparr>)"
    using ok by (auto simp: ref_ok_def split: option.splits)
  then show ?thesis
    using ok by (simp add: setPermissionStatus_def ref_ok_run_effect)
qed

lemma ref_ok_setEnabled: "ref_ok v \<Longrightarrow> ref_ok (setEnabled b v)"
proof -
  assume ok: "ref_ok v"
  have "ref_ok (v\<lparr>enabled := b\<rparr>)"
    using ok by (auto simp: ref_ok_def split: option.splits)
  then show ?thesis
    using ok by (simp add: setEnabled_def ref_ok_run_effect)
qed

lemma ref_ok_requestPermission: "ref_ok v \<Longrightarrow> ref_ok (requestPermission d v)"
proof -
  assume ok: "ref_ok v"
  have "ref_ok (v\<lparr>v_error := e\<rparr>)" for e
    using ok by (auto simp: ref_ok_def split: option.splits)
  then show ?thesis
    using ok
    by (auto simp: requestPermission_def ref_ok_setPermissionStatus
             split: option.splits error.splits)
qed

lemma ref_ok_onstart: "ref_ok v \<Longrightarrow> i < length (recognitions v) \<Longrightarrow> ref_ok (onstart v)"
  by (auto simp: onstart_def ref_ok_def split: option.splits)

lemma ref_ok_onresult: "ref_ok v \<Longrightarrow> ref_ok (onresult i rs k v)"
  by (rule ref_ok_frame [where v = v]) (simp_all add: onresult_def Let_def)

lemma ref_ok_onerror: "ref_ok v \<Longrightarrow> ref_ok (onerror code v)"
proof -
  assume ok: "ref_ok v"
  have "ref_ok (v\<lparr>v_error := e\<rparr>)" for e
    using ok by (auto simp: ref_ok_def split: option.splits)
  then show ?thesis
    by (simp add: onerror_def Let_def ref_ok_setPermissionStatus)
qed

lemma ref_ok_onend: "ref_ok v \<Longrightarrow> ref_ok (onend i v)"
proof -
  assume ok: "ref_ok v"
  have ok1: "ref_ok (v\<lparr>isListening := False\<rparr>)"
    using ok by (auto simp: ref_ok_def split: option.splits)
  show ?thesis
    using ok1 by (auto simp: onend_def Let_def split: sum.splits intro: ref_ok_platform_start)
qed

lemma ref_ok_restart: "ref_ok v \<Longrightarrow> ref_ok (restart_after_cooldown c v)"
  by (simp add: restart_after_cooldown_def ref_ok_startListening_with)

lemma ref_ok_step:
  assumes "ref_ok v" "step e v = Some v'"
  shows "ref_ok v'"
proof (cases e)
  case CallStartListening
  then show ?thesis using assms by (auto simp: startListening_def ref_ok_startListening_with)
next
  case CallStopListening
  then show ?thesis using assms by (auto simp: ref_ok_stopListening)
next
  case (SetEnabled b)
  then show ?thesis using assms by (auto simp: ref_ok_setEnabled)
next
  case (PermissionChanged p)
  then show ?thesis using assms by (auto simp: ref_ok_setPermissionStatus split: if_splits)
next
  case (RequestPermission d)
  then show ?thesis using assms by (auto simp: ref_ok_requestPermission)
next
  case (OnStart i)
  then show ?thesis using assms by (auto simp: ref_ok_onstart split: if_splits)
next
  case (OnResult i rs k)
  then show ?thesis using assms by (auto simp: ref_ok_onresult split: if_splits)
next
  case (OnError i code)
  then show ?thesis using assms by (auto simp: ref_ok_onerror split: if_splits)
next
  case (OnEnd i)
  have "ref_ok (v\<lparr>recognitions := (recognitions v)[i := r]\<rparr>)" for r
    using assms(1) by (auto simp: ref_ok_def split: option.splits)
  then show ?thesis using OnEnd assms by (auto simp: ref_ok_onend split: if_splits)
next
  case (TimerFires k)
  have "ref_ok (v\<lparr>timers := ts\<rparr>)" for ts
    using assms(1) by (auto simp: ref_ok_def split: option.splits)
  then show ?thesis using TimerFires assms by (auto simp: ref_ok_restart split: if_splits)
next
  case (Tick ms)
  then show ?thesis using assms by (auto simp: ref_ok_def split: option.splits)
qed

lemma ref_ok_mounted: "ref_ok (mounted s p e l)"
  by (simp add: ref_ok_def mounted_def)

lemma reachable_ref_ok: "reachable v \<Longrightarrow> ref_ok v"
  by (induction rule: reachable.induct) (auto intro: ref_ok_mounted ref_ok_step)

lemma stopListening_keeps_timers: "timers (stopListening v) = timers v"
  by (simp add: stopListening_def split: option.splits)

lemma stopListening_not_listening: "reachable v \<Longrightarrow> \<not> isListening (stopListening v)"
  using reachable_ref_ok [of v]
  by (auto simp: stopListening_def ref_ok_def split: option.splits)

lemma onresult_detection:
  assumes "i < length (recognitions v)" "status (recognitions v ! i) = Running"
    and "matchesTrigger (currentTranscript rs k) (c_triggerPhrase (handlers (recognitions v ! i)))"
  shows "actions (onresult i rs k v) = actions v @ [Activated (clock v), Stopped i (clock v)]"
    and "timers (onresult i rs k v) = timers v @ [(clock v + 1000, handlers (recognitions v ! i))]"
    and "status (recognitions (onresult i rs k v) ! i) = Stopping"
  using assms by (simp_all add: onresult_def Let_def platform_stop_def)

lemma end_restarts_at_once:
  assumes "i < length (recognitions v)" "status (recognitions v ! i) = Stopping"
    and "c_enabled (handlers (recognitions v ! i))"
    and "c_permissionStatus (handlers (recognitions v ! i)) = Granted"
  shows "\<exists>v'. step (OnEnd i) v = Some v' \<and> actions v' = actions v @ [Started i (clock v)]
           \<and> timers v' = timers v \<and> status (recognitions v' ! i) = Running"
  using assms by (simp add: live_def onend_def Let_def platform_start_def)

text \<open>
  C2. One detection, with voice activation enabled and the microphone granted: the
  session starts at 0 ms, "help aura" is heard at 2005 ms, the browser ends the stopped
  session at 2055 ms and the cooldown timer fires at 3005 ms. \<open>onActivate\<close> is called once
  and the session is stopped, but \<open>onend\<close> starts it again at 2055 ms, before the
  cooldown of 1000 ms has passed, and the timer starts a second recognition object at
  3005 ms: two restarts, and two objects running at the end.
\<close>

theorem restart_before_cooldown:
  "map_option actions (run detection_trace help_aura_session) =
     Some [Started 0 0, Activated 2005, Stopped 0 2005, Started 0 2055, Started 1 3005]
   \<and> map_option (map status \<circ> recognitions) (run detection_trace help_aura_session) =
     Some [Running, Running]"
  by code_simp

lemma reachable_listening_session: "reachable listening_session"
proof -
  have r0: "reachable help_aura_session"
    unfolding help_aura_session_def by (rule reachable_mounted)
  have s1: "step (PermissionChanged Granted) help_aura_session
      = Some (setPermissionStatus Granted help_aura_session)"
    by (simp add: help_aura_session_def mounted_def)
  have r1: "reachable (setPermissionStatus Granted help_aura_session)"
    using r0 s1 by (rule reachable_step)
  have s2: "step (OnStart 0) (setPermissionStatus Granted help_aura_session)
      = Some listening_session"
    unfolding listening_session_def by code_simp
  show ?thesis
    using r1 s2 by (rule reachable_step)
qed

text \<open>
  A stop does not last when the browser's \<open>end\<close> event follows it: the handlers of the
  stopped object still hold \<open>enabled\<close> and \<open>granted\<close>, and \<open>onend\<close> starts it again.
\<close>

lemma stop_is_undone_by_end:
  "map_option actions (step (OnEnd 0) (stopListening listening_session)) =
     Some [Started 0 0, Stopped 0 0, Started 0 0]"
  by code_simp

text \<open>
  C9. The state after one detection (the events of C2), once the second recognition
  object has reported its start, and then \<open>stopListening\<close> twice. After the first call and
  after the second the hook does not report listening, but only the object that
  \<open>recognitionRef\<close> points at was told to stop: the first object, which \<open>onend\<close> started
  again, is still running, and a later "help aura" on it calls \<open>onActivate\<close> again. The
  second call repeats \<open>stop()\<close> on the object that is already stopping.
\<close>

theorem stop_leaves_session_running:
  "map_option (map status \<circ> recognitions)
     (run (detection_trace @ [OnStart 1, CallStopListening]) help_aura_session) =
     Some [Running, Stopping]
   \<and> map_option isListening (run stop_twice_trace help_aura_session) = Some False
   \<and> map_option (map status \<circ> recognitions) (run stop_twice_trace help_aura_session) =
     Some [Running, Stopping]
   \<and> map_option actions (run stop_twice_trace help_aura_session) =
     Some [Started 0 0, Activated 2005, Stopped 0 2005, Started 0 2055, Started 1 3005,
           Stopped 1 3005, StopIgnored 1 3005]
   \<and> map_option actions
       (run (stop_twice_trace @
             [Tick 100, OnResult 0 [\<lparr>result_transcript = ''help aura'', isFinal = True\<rparr>] 0])
          help_aura_session) =
     Some [Started 0 0, Activated 2005, Stopped 0 2005, Started 0 2055, Started 1 3005,
           Stopped 1 3005, StopIgnored 1 3005, Activated 3105, Stopped 0 3105]"
  by code_simp

end
